theory Spec2Isabelle
  imports Main "HOL-Library.Monad_Syntax"
begin

section \<open>The employee record store of spiff\_main.c\<close>

text \<open>
  The program keeps up to \<open>MAX_ROWS\<close> employee records, one text file per record, on a
  SPIFFS partition. Every file access is bracketed by a FreeRTOS mutex. This theory embeds
  the storage functions of the program and proves the properties of the storage engine.
\<close>

subsection \<open>Constants and the record type\<close>

definition MAX_ROWS :: int where
  "MAX_ROWS = 10"

definition MAX_FIELD_SIZE :: nat where
  "MAX_FIELD_SIZE = 20"

definition MAX_FILENAME_SIZE :: nat where
  "MAX_FILENAME_SIZE = 30"

text \<open>
  A field of the C struct is a \<open>char[MAX_FIELD_SIZE]\<close> buffer. The model keeps the C string
  the buffer holds: the bytes before the first NUL. A buffer filled by \<open>memset(.., 0, ..)\<close>
  holds the empty string.
\<close>

record EmployeeDetails =
  Employee_Name :: string
  Employee_ID :: string
  Employee_Age :: string
  Employee_Position :: string
  Employee_Salary :: string

definition zero_employee :: EmployeeDetails where
  "zero_employee = \<lparr>Employee_Name = [], Employee_ID = [], Employee_Age = [],
     Employee_Position = [], Employee_Salary = []\<rparr>"

definition NUL :: char where
  "NUL = CHR 0x00"

definition NL :: char where
  "NL = CHR 0x0A"

text \<open>The C string held by a byte sequence that is followed by a terminator.\<close>

definition c_str :: "string \<Rightarrow> string" where
  "c_str bytes = takeWhile (\<lambda>c. c \<noteq> NUL) bytes"

text \<open>
  A string that fits a field buffer: fewer than \<open>MAX_FIELD_SIZE\<close> bytes, none of them NUL.
  Every record the program builds has such fields.
\<close>

definition fits_field :: "string \<Rightarrow> bool" where
  "fits_field f \<longleftrightarrow> length f < MAX_FIELD_SIZE \<and> NUL \<notin> set f"

definition fits_employee :: "EmployeeDetails \<Rightarrow> bool" where
  "fits_employee r \<longleftrightarrow> fits_field (Employee_Name r) \<and> fits_field (Employee_ID r) \<and>
     fits_field (Employee_Age r) \<and> fits_field (Employee_Position r) \<and>
     fits_field (Employee_Salary r)"

subsection \<open>The file system, the mutex and the counter\<close>

datatype event = Take | Give | Fopen_failed string | Fopen string | Fclose string

text \<open>
  The counter and the slot indices are C \<open>int\<close>s. The counter is incremented only below
  \<open>MAX_ROWS\<close> and the loop indices stop at \<open>MAX_ROWS\<close>, so no arithmetic of the program
  can overflow and the model uses \<open>int\<close>.

  \<open>files\<close> maps a path to the content of the file there; \<open>open_w_fails\<close> tells for which
  paths \<open>fopen(path, "w")\<close> returns \<open>NULL\<close> (a property of the mounted partition, outside
  the program); \<open>fopen(path, "r")\<close> fails where there is no file. \<open>trace\<close> records the
  semaphore and file calls in the order they happen, each with the state of the mutex right
  after the call: \<open>True\<close> when it is held.
\<close>

record spiffs =
  files :: "string \<rightharpoonup> string"
  open_w_fails :: "string \<Rightarrow> bool"
  mutex_held :: bool
  trace :: "(event \<times> bool) list"
  num_employees :: int

definition emit :: "event \<Rightarrow> spiffs \<Rightarrow> spiffs" where
  "emit e s = s\<lparr>trace := trace s @ [(e, mutex_held s)]\<rparr>"

text \<open>
  \<open>xSemaphoreTake(spiffs_mutex, portMAX_DELAY)\<close> returns once the mutex has been obtained.
  Seen from the one task of the model, a mutex that is held is never given back, so the call
  does not return: \<open>None\<close>.
\<close>

definition lock_spiffs :: "spiffs \<Rightarrow> spiffs option" where
  "lock_spiffs s = (if mutex_held s then None else Some (emit Take (s\<lparr>mutex_held := True\<rparr>)))"

definition unlock_spiffs :: "spiffs \<Rightarrow> spiffs" where
  "unlock_spiffs s = emit Give (s\<lparr>mutex_held := False\<rparr>)"

subsection \<open>Paths\<close>

fun dec_digits :: "nat \<Rightarrow> string" where
  "dec_digits n = (if n < 10 then [char_of (48 + n)]
     else dec_digits (n div 10) @ [char_of (48 + n mod 10)])"

declare dec_digits.simps [simp del]

text \<open>The conversion \<open>%d\<close>.\<close>

definition printf_d :: "int \<Rightarrow> string" where
  "printf_d i = (if i < 0 then CHR ''-'' # dec_digits (nat (- i)) else dec_digits (nat i))"

text \<open>\<open>snprintf(dst, size, "%s", src)\<close>: at most \<open>size - 1\<close> bytes of \<open>src\<close>, then NUL.\<close>

definition snprintf_s :: "nat \<Rightarrow> string \<Rightarrow> string" where
  "snprintf_s n src = take (n - 1) src"

definition slot_filename :: "int \<Rightarrow> string" where
  "slot_filename employee_index =
     snprintf_s MAX_FILENAME_SIZE (''/spiffs/data_'' @ printf_d employee_index @ ''.txt'')"

subsection \<open>Writing a slot\<close>

text \<open>The format \<open>"%s\n%s\n%s\n%s\n%s\n"\<close> applied to the five fields.\<close>

definition fprintf_employee :: "EmployeeDetails \<Rightarrow> string" where
  "fprintf_employee employee =
     Employee_Name employee @ [NL] @ Employee_ID employee @ [NL] @ Employee_Age employee @ [NL]
     @ Employee_Position employee @ [NL] @ Employee_Salary employee @ [NL]"

text \<open>
  Mode \<open>"w"\<close> truncates, so after \<open>fclose\<close> the file holds exactly what \<open>fprintf\<close> wrote.
\<close>

definition write_employee_details :: "int \<Rightarrow> EmployeeDetails \<Rightarrow> spiffs \<Rightarrow> spiffs option" where
  "write_employee_details employee_index employee s =
     (case lock_spiffs s of
        None \<Rightarrow> None
      | Some s1 \<Rightarrow>
          (let filename = slot_filename employee_index in
           if open_w_fails s1 filename
           then Some (unlock_spiffs (emit (Fopen_failed filename) s1))
           else
             (let s2 = emit (Fopen filename) s1;
                  s3 = s2\<lparr>files := (files s2)(filename \<mapsto> fprintf_employee employee)\<rparr>;
                  s4 = emit (Fclose filename) s3
              in Some (unlock_spiffs s4))))"

subsection \<open>Reading a slot\<close>

text \<open>
  \<open>fscanf(file, "%19[^\n]%*c", field)\<close> on the unread rest of the file. The scanset takes
  the longest run of at most 19 bytes other than newline; an empty run is a matching failure
  (or end of file) and the call does not return 1. Otherwise the run, then a NUL, is stored
  in the field, \<open>%*c\<close> skips one more byte when there is one, and the call returns 1.
  The result is the field's new string and the rest of the file.
\<close>

definition fscanf_field :: "string \<Rightarrow> (string \<times> string) option" where
  "fscanf_field input =
     (let run = takeWhile (\<lambda>c. c \<noteq> NL) (take 19 input) in
      if run = [] then None else Some (c_str run, drop (length run + 1) input))"

text \<open>The chain of five \<open>fscanf\<close> calls, each failure followed by \<open>memset\<close>.\<close>

definition fscanf_employee :: "string \<Rightarrow> EmployeeDetails \<Rightarrow> EmployeeDetails" where
  "fscanf_employee input employee =
     (case fscanf_field input of
        None \<Rightarrow> zero_employee
      | Some (name, input1) \<Rightarrow>
     (case fscanf_field input1 of
        None \<Rightarrow> zero_employee
      | Some (ident, input2) \<Rightarrow>
     (case fscanf_field input2 of
        None \<Rightarrow> zero_employee
      | Some (age, input3) \<Rightarrow>
     (case fscanf_field input3 of
        None \<Rightarrow> zero_employee
      | Some (position, input4) \<Rightarrow>
     (case fscanf_field input4 of
        None \<Rightarrow> zero_employee
      | Some (salary, input5) \<Rightarrow>
          employee\<lparr>Employee_Name := name, Employee_ID := ident, Employee_Age := age,
            Employee_Position := position, Employee_Salary := salary\<rparr>)))))"

text \<open>
  The second argument is what the caller's struct holds before the call; the result is what
  it holds after. When the file cannot be opened the function returns without touching it.
\<close>

definition read_employee_details ::
  "int \<Rightarrow> EmployeeDetails \<Rightarrow> spiffs \<Rightarrow> (EmployeeDetails \<times> spiffs) option" where
  "read_employee_details employee_index employee s =
     (case lock_spiffs s of
        None \<Rightarrow> None
      | Some s1 \<Rightarrow>
          (let filename = slot_filename employee_index in
           case files s1 filename of
             None \<Rightarrow> Some (employee, unlock_spiffs (emit (Fopen_failed filename) s1))
           | Some content \<Rightarrow>
               Some (fscanf_employee content employee,
                     unlock_spiffs (emit (Fclose filename) (emit (Fopen filename) s1)))))"

subsection \<open>Lookup by identifier\<close>

text \<open>
  The loop of \<open>get_employee_details_by_id\<close>, entered at index \<open>i\<close>. The local struct
  \<open>current_employee\<close> is declared without an initialiser in every iteration; \<open>stack i\<close> is
  the indeterminate content it has in iteration \<open>i\<close>. \<open>strcmp(..) == 0\<close> is equality of
  the two C strings. After the loop the output is cleared with \<open>memset\<close>.
\<close>

function get_employee_loop ::
  "string \<Rightarrow> (int \<Rightarrow> EmployeeDetails) \<Rightarrow> int \<Rightarrow> spiffs \<Rightarrow> (EmployeeDetails \<times> spiffs) option" where
  "get_employee_loop employee_id stack i s =
     (if i < MAX_ROWS then
        (case read_employee_details i (stack i) s of
           None \<Rightarrow> None
         | Some (current_employee, s') \<Rightarrow>
             if Employee_ID current_employee = employee_id
             then Some (current_employee, s')
             else get_employee_loop employee_id stack (i + 1) s')
      else Some (zero_employee, s))"
  by pat_completeness auto
termination
  by (relation "measure (\<lambda>(employee_id, stack, i, s). nat (MAX_ROWS - i))") auto

declare get_employee_loop.simps [simp del]

definition get_employee_details_by_id ::
  "string \<Rightarrow> (int \<Rightarrow> EmployeeDetails) \<Rightarrow> spiffs \<Rightarrow> (EmployeeDetails \<times> spiffs) option" where
  "get_employee_details_by_id employee_id stack s = get_employee_loop employee_id stack 0 s"

subsection \<open>Insertion\<close>

text \<open>
  The functions return nothing in C and report through the log. The model returns the
  report: \<open>Database_Full\<close> for the error "Cannot add new employee. Database is full.",
  \<open>New_Employee_Added\<close> with the record whose fields are logged after the write.
\<close>

datatype add_report = Database_Full | New_Employee_Added EmployeeDetails

definition add_new_employee ::
  "string \<Rightarrow> string \<Rightarrow> string \<Rightarrow> string \<Rightarrow> string \<Rightarrow> spiffs \<Rightarrow> (add_report \<times> spiffs) option" where
  "add_new_employee name emp_id age position salary s =
     (if num_employees s \<ge> MAX_ROWS then Some (Database_Full, s)
      else
        (let new_employee = \<lparr>Employee_Name = snprintf_s MAX_FIELD_SIZE name,
               Employee_ID = snprintf_s MAX_FIELD_SIZE emp_id,
               Employee_Age = snprintf_s MAX_FIELD_SIZE age,
               Employee_Position = snprintf_s MAX_FIELD_SIZE position,
               Employee_Salary = snprintf_s MAX_FIELD_SIZE salary\<rparr>
         in case write_employee_details (num_employees s) new_employee s of
              None \<Rightarrow> None
            | Some s' \<Rightarrow>
                Some (New_Employee_Added new_employee,
                      s'\<lparr>num_employees := num_employees s' + 1\<rparr>)))"

subsection \<open>Deletion\<close>

text \<open>
  \<open>Deleted_Successfully\<close> stands for the log line "Employee with ID .. deleted
  successfully.", \<open>Not_Found\<close> for the error "Employee with ID .. not found.".
\<close>

datatype delete_report = Deleted_Successfully | Not_Found

function delete_employee_loop ::
  "string \<Rightarrow> (int \<Rightarrow> EmployeeDetails) \<Rightarrow> int \<Rightarrow> spiffs \<Rightarrow> (delete_report \<times> spiffs) option" where
  "delete_employee_loop employee_id stack i s =
     (if i < MAX_ROWS then
        (case read_employee_details i (stack i) s of
           None \<Rightarrow> None
         | Some (current_employee, s') \<Rightarrow>
             if Employee_ID current_employee = employee_id
             then (case write_employee_details i zero_employee s' of
                     None \<Rightarrow> None
                   | Some s'' \<Rightarrow> Some (Deleted_Successfully, s''))
             else delete_employee_loop employee_id stack (i + 1) s')
      else Some (Not_Found, s))"
  by pat_completeness auto
termination
  by (relation "measure (\<lambda>(employee_id, stack, i, s). nat (MAX_ROWS - i))") auto

declare delete_employee_loop.simps [simp del]

definition delete_employee_by_id ::
  "string \<Rightarrow> (int \<Rightarrow> EmployeeDetails) \<Rightarrow> spiffs \<Rightarrow> (delete_report \<times> spiffs) option" where
  "delete_employee_by_id employee_id stack s = delete_employee_loop employee_id stack 0 s"

subsection \<open>The startup sequence\<close>

definition mk_employee :: "string \<Rightarrow> string \<Rightarrow> string \<Rightarrow> string \<Rightarrow> string \<Rightarrow> EmployeeDetails" where
  "mk_employee name emp_id age position salary =
     \<lparr>Employee_Name = name, Employee_ID = emp_id, Employee_Age = age,
      Employee_Position = position, Employee_Salary = salary\<rparr>"

definition employees :: "EmployeeDetails list" where
  "employees =
     [mk_employee ''JohnDoe'' ''EMP001'' ''30'' ''SeniorEngineer'' ''50000'',
      mk_employee ''JaneSmith'' ''EMP002'' ''35'' ''Manager'' ''70000'',
      mk_employee ''Ravi'' ''EMP003'' ''28'' ''SeniorExecutive'' ''40000'',
      mk_employee ''Raju'' ''EMP004'' ''29'' ''JuniorExecutive'' ''30000'',
      mk_employee ''Vivek'' ''EMP005'' ''21'' ''CEO'' ''100000'',
      mk_employee ''Monoj'' ''EMP006'' ''25'' ''MarketingExecutive'' ''40000'',
      mk_employee ''Harish'' ''EMP007'' ''25'' ''JuniorEngineer'' ''40000'',
      mk_employee ''Ankit'' ''EMP008'' ''26'' ''SalesExecutive'' ''30000'',
      mk_employee ''Sai'' ''EMP009'' ''26'' ''Developer'' ''25000'',
      mk_employee ''Eswar'' ''EMP010'' ''28'' ''TeamLead'' ''40000'']"

text \<open>The loop that writes \<open>employees[i]\<close> to slot \<open>i\<close>, entered at index \<open>i\<close>.\<close>

function seed_loop :: "int \<Rightarrow> spiffs \<Rightarrow> spiffs option" where
  "seed_loop i s =
     (if i < MAX_ROWS then
        (case write_employee_details i (employees ! nat i) s of
           None \<Rightarrow> None
         | Some s' \<Rightarrow> seed_loop (i + 1) s')
      else Some s)"
  by pat_completeness auto
termination
  by (relation "measure (\<lambda>(i, s). nat (MAX_ROWS - i))") auto

declare seed_loop.simps [simp del]

text \<open>
  \<open>app_main\<close> up to and including the four calls of \<open>add_new_employee\<close>.
  \<open>xSemaphoreCreateMutex\<close> yields a free mutex; mounting the partition is outside the
  model, whose \<open>files\<close> and \<open>open_w_fails\<close> describe the partition as mounted.
\<close>

definition app_main_inserts :: "spiffs \<Rightarrow> (add_report list \<times> spiffs) option" where
  "app_main_inserts s0 =
     do {
       s1 \<leftarrow> seed_loop 0 (s0\<lparr>mutex_held := False\<rparr>);
       (a1, s2) \<leftarrow> add_new_employee ''New Employee 1'' ''EMP011'' ''25'' ''New Position 1'' ''60000'' s1;
       (a2, s3) \<leftarrow> add_new_employee ''New Employee 2'' ''EMP012'' ''27'' ''New Position 2'' ''65000'' s2;
       (a3, s4) \<leftarrow> add_new_employee ''New Employee 3'' ''EMP013'' ''29'' ''New Position 3'' ''70000'' s3;
       (a4, s5) \<leftarrow> add_new_employee ''New Employee 4'' ''EMP014'' ''30'' ''New Position 4'' ''75000'' s4;
       Some ([a1, a2, a3, a4], s5)
     }"

text \<open>
  The whole of \<open>app_main\<close>: the reports of the inserts, the report of the deletion and the
  record that the final lookup leaves in \<open>target_employee\<close>.
\<close>

definition app_main ::
  "(int \<Rightarrow> EmployeeDetails) \<Rightarrow> (int \<Rightarrow> EmployeeDetails) \<Rightarrow> spiffs
     \<Rightarrow> ((add_report list \<times> delete_report \<times> EmployeeDetails) \<times> spiffs) option" where
  "app_main stack_delete stack_get s0 =
     do {
       (adds, s5) \<leftarrow> app_main_inserts s0;
       (deleted, s6) \<leftarrow> delete_employee_by_id ''EMP006'' stack_delete s5;
       (target_employee, s7) \<leftarrow> get_employee_details_by_id ''EMP009'' stack_get s6;
       Some ((adds, deleted, target_employee), s7)
     }"

subsection \<open>Notions used in the statements\<close>

text \<open>
  A field that \<open>fprintf\<close> writes as one line and \<open>fscanf\<close> reads back whole:
  not empty, shorter than the buffer, without NUL and without newline.
\<close>

definition line_safe :: "string \<Rightarrow> bool" where
  "line_safe f \<longleftrightarrow> f \<noteq> [] \<and> length f < MAX_FIELD_SIZE \<and> NUL \<notin> set f \<and> NL \<notin> set f"

text \<open>
  What \<open>read_employee_details(i, &current_employee)\<close> leaves in the local struct of
  a scan loop, as a function of the files: the decoded file, or the indeterminate content
  of the struct when slot \<open>i\<close> has no file.
\<close>

definition slot_view :: "(int \<Rightarrow> EmployeeDetails) \<Rightarrow> (string \<rightharpoonup> string) \<Rightarrow> int \<Rightarrow> EmployeeDetails" where
  "slot_view stack fs i =
     (case fs (slot_filename i) of None \<Rightarrow> stack i | Some content \<Rightarrow> fscanf_employee content (stack i))"

text \<open>The calls one read and one write of slot \<open>i\<close> add to the trace.\<close>

definition read_events :: "(string \<rightharpoonup> string) \<Rightarrow> int \<Rightarrow> (event \<times> bool) list" where
  "read_events fs i =
     (case fs (slot_filename i) of
        None \<Rightarrow> [(Take, True), (Fopen_failed (slot_filename i), True), (Give, False)]
      | Some content \<Rightarrow>
          [(Take, True), (Fopen (slot_filename i), True), (Fclose (slot_filename i), True),
           (Give, False)])"

definition write_events :: "(string \<Rightarrow> bool) \<Rightarrow> int \<Rightarrow> (event \<times> bool) list" where
  "write_events fails i =
     (if fails (slot_filename i) then
        [(Take, True), (Fopen_failed (slot_filename i), True), (Give, False)]
      else
        [(Take, True), (Fopen (slot_filename i), True), (Fclose (slot_filename i), True),
         (Give, False)])"

text \<open>The files after one write of record \<open>r\<close> to slot \<open>i\<close>.\<close>

definition written :: "(string \<Rightarrow> bool) \<Rightarrow> (string \<rightharpoonup> string) \<Rightarrow> int \<Rightarrow> EmployeeDetails \<Rightarrow> (string \<rightharpoonup> string)" where
  "written fails fs i r =
     (if fails (slot_filename i) then fs else fs(slot_filename i \<mapsto> fprintf_employee r))"

text \<open>
  The lowest slot from \<open>i\<close> on whose identifier, as read back, equals the key.
\<close>

definition matching_slot ::
  "(int \<Rightarrow> EmployeeDetails) \<Rightarrow> (string \<rightharpoonup> string) \<Rightarrow> string \<Rightarrow> int \<Rightarrow> int option" where
  "matching_slot stack fs employee_id i =
     List.find (\<lambda>j. Employee_ID (slot_view stack fs j) = employee_id) [i..MAX_ROWS - 1]"

text \<open>
  A freshly formatted partition at program start: no file, every file can be created, the
  mutex free, the counter at its initial value 0.
\<close>

definition boot :: spiffs where
  "boot = \<lparr>files = Map.empty, open_w_fails = (\<lambda>path. False), mutex_held = False,
     trace = [], num_employees = 0\<rparr>"

text \<open>A stack whose uninitialised structs happen to hold zero bytes.\<close>

definition zero_stack :: "int \<Rightarrow> EmployeeDetails" where
  "zero_stack i = zero_employee"

text \<open>The record \<open>add_new_employee\<close> builds from its five arguments.\<close>

definition inserted :: "string \<Rightarrow> string \<Rightarrow> string \<Rightarrow> string \<Rightarrow> string \<Rightarrow> EmployeeDetails" where
  "inserted name emp_id age position salary =
     mk_employee (snprintf_s MAX_FIELD_SIZE name) (snprintf_s MAX_FIELD_SIZE emp_id)
       (snprintf_s MAX_FIELD_SIZE age) (snprintf_s MAX_FIELD_SIZE position)
       (snprintf_s MAX_FIELD_SIZE salary)"

text \<open>A write of slot \<open>i\<close> followed at once by a read of the same slot into a struct
  that held \<open>e\<close>.\<close>

definition write_then_read ::
  "int \<Rightarrow> EmployeeDetails \<Rightarrow> EmployeeDetails \<Rightarrow> spiffs \<Rightarrow> EmployeeDetails option" where
  "write_then_read i r e s =
     do {
       s1 \<leftarrow> write_employee_details i r s;
       (r', s2) \<leftarrow> read_employee_details i e s1;
       Some r'
     }"

text \<open>Records whose fields fit their buffers and hold no newline.\<close>

definition plain_employee :: "EmployeeDetails \<Rightarrow> bool" where
  "plain_employee r \<longleftrightarrow> fits_employee r \<and> NL \<notin> set (Employee_Name r) \<and>
     NL \<notin> set (Employee_ID r) \<and> NL \<notin> set (Employee_Age r) \<and>
     NL \<notin> set (Employee_Position r) \<and> NL \<notin> set (Employee_Salary r)"

definition no_empty_field :: "EmployeeDetails \<Rightarrow> bool" where
  "no_empty_field r \<longleftrightarrow> Employee_Name r \<noteq> [] \<and> Employee_ID r \<noteq> [] \<and> Employee_Age r \<noteq> [] \<and>
     Employee_Position r \<noteq> [] \<and> Employee_Salary r \<noteq> []"

text \<open>Two calls of \<open>delete_employee_by_id\<close> for the same key, one after the other.\<close>

definition delete_twice ::
  "string \<Rightarrow> (int \<Rightarrow> EmployeeDetails) \<Rightarrow> (int \<Rightarrow> EmployeeDetails) \<Rightarrow> spiffs
     \<Rightarrow> (delete_report \<times> delete_report) option" where
  "delete_twice employee_id stack stack' s =
     do {
       (first, s1) \<leftarrow> delete_employee_by_id employee_id stack s;
       (second, s2) \<leftarrow> delete_employee_by_id employee_id stack' s1;
       Some (first, second)
     }"

text \<open>
  A store as three insertions and one deletion leave it on a fresh partition: slots 0 and 1
  hold two records, slot 2 holds the all-zero record of a deleted employee, the other slots
  have no file, and the counter is 3.
\<close>

definition john :: EmployeeDetails where
  "john = mk_employee ''JohnDoe'' ''EMP001'' ''30'' ''SeniorEngineer'' ''50000''"

definition jane :: EmployeeDetails where
  "jane = mk_employee ''JaneSmith'' ''EMP002'' ''35'' ''Manager'' ''70000''"

definition demo_store :: spiffs where
  "demo_store = boot\<lparr>files := [slot_filename 0 \<mapsto> fprintf_employee john,
       slot_filename 1 \<mapsto> fprintf_employee jane,
       slot_filename 2 \<mapsto> fprintf_employee zero_employee],
     num_employees := 3\<rparr>"

definition asha :: EmployeeDetails where
  "asha = mk_employee ''Asha'' ''EMP011'' ''31'' ''Engineer'' ''60000''"

text \<open>\<open>add_new_employee\<close> followed by a lookup of the stored identifier.\<close>

definition insert_then_find ::
  "string \<Rightarrow> string \<Rightarrow> string \<Rightarrow> string \<Rightarrow> string \<Rightarrow> (int \<Rightarrow> EmployeeDetails) \<Rightarrow> spiffs
     \<Rightarrow> (add_report \<times> EmployeeDetails) option" where
  "insert_then_find name emp_id age position salary stack s =
     do {
       (report, s1) \<leftarrow> add_new_employee name emp_id age position salary s;
       (found, s2) \<leftarrow> get_employee_details_by_id (snprintf_s MAX_FIELD_SIZE emp_id) stack s1;
       Some (report, found)
     }"

text \<open>
  The operations a task can call, and runs of them. The lookups carry the indeterminate
  content of their local structs, a read the prior content of the caller's struct.
\<close>

datatype operation =
  Add string string string string string
  | Get string "int \<Rightarrow> EmployeeDetails"
  | Delete string "int \<Rightarrow> EmployeeDetails"
  | Write int EmployeeDetails
  | Read int EmployeeDetails

fun perform :: "operation \<Rightarrow> spiffs \<Rightarrow> spiffs option" where
  "perform (Add name emp_id age position salary) s =
     map_option snd (add_new_employee name emp_id age position salary s)"
| "perform (Get employee_id stack) s = map_option snd (get_employee_details_by_id employee_id stack s)"
| "perform (Delete employee_id stack) s = map_option snd (delete_employee_by_id employee_id stack s)"
| "perform (Write employee_index employee) s = write_employee_details employee_index employee s"
| "perform (Read employee_index employee) s =
     map_option snd (read_employee_details employee_index employee s)"

fun run :: "operation list \<Rightarrow> spiffs \<Rightarrow> spiffs option" where
  "run [] s = Some s"
| "run (op # ops) s = Option.bind (perform op s) (run ops)"

fun is_add :: "operation \<Rightarrow> bool" where
  "is_add (Add name emp_id age position salary) = True"
| "is_add other = False"

text \<open>The records of the four calls of \<open>add_new_employee\<close> in \<open>app_main\<close>.\<close>

definition new_employees :: "EmployeeDetails list" where
  "new_employees =
     [mk_employee ''New Employee 1'' ''EMP011'' ''25'' ''New Position 1'' ''60000'',
      mk_employee ''New Employee 2'' ''EMP012'' ''27'' ''New Position 2'' ''65000'',
      mk_employee ''New Employee 3'' ''EMP013'' ''29'' ''New Position 3'' ''70000'',
      mk_employee ''New Employee 4'' ''EMP014'' ''30'' ''New Position 4'' ''75000'']"

text \<open>The records of the ten slots once the four insertions have run.\<close>

definition after_inserts :: "EmployeeDetails list" where
  "after_inserts = new_employees @ drop 4 employees"

text \<open>
  The record that the file of slot \<open>i\<close> decodes to, \<open>None\<close> for a slot without a file. The
  struct the decoding starts from plays no part: the five \<open>fscanf\<close> calls either fill all
  five fields or end in \<open>memset\<close>.
\<close>

definition stored_record :: "(string \<rightharpoonup> string) \<Rightarrow> int \<Rightarrow> EmployeeDetails option" where
  "stored_record fs i =
     map_option (\<lambda>content. fscanf_employee content zero_employee) (fs (slot_filename i))"

text \<open>
  Slot \<open>i\<close> has a file whose decoded identifier is the key; slot \<open>i\<close> has a file whose
  decoded identifier is not the key. A slot without a file is neither.
\<close>

definition holds_id :: "(string \<rightharpoonup> string) \<Rightarrow> int \<Rightarrow> string \<Rightarrow> bool" where
  "holds_id fs i employee_id =
     (case stored_record fs i of None \<Rightarrow> False | Some r \<Rightarrow> Employee_ID r = employee_id)"

definition holds_other :: "(string \<rightharpoonup> string) \<Rightarrow> int \<Rightarrow> string \<Rightarrow> bool" where
  "holds_other fs i employee_id =
     (case stored_record fs i of None \<Rightarrow> False | Some r \<Rightarrow> Employee_ID r \<noteq> employee_id)"

text \<open>
  A stack on which the uninitialised structs of a scan all hold the record \<open>r\<close>, left
  there by earlier calls.
\<close>

definition stale_stack :: "EmployeeDetails \<Rightarrow> int \<Rightarrow> EmployeeDetails" where
  "stale_stack r i = r"

text \<open>
  A store in which slot 0 has no file and slot 1 holds the all-zero record of a deleted
  employee, and a record without identifier.
\<close>

definition gap_store :: spiffs where
  "gap_store = boot\<lparr>files := [slot_filename 1 \<mapsto> fprintf_employee zero_employee],
     num_employees := 2\<rparr>"

definition john_without_id :: EmployeeDetails where
  "john_without_id = mk_employee ''JohnDoe'' [] ''30'' ''SeniorEngineer'' ''50000''"

section \<open>Properties\<close>

subsection \<open>The record codec\<close>

lemma c_str_id: "NUL \<notin> set f \<Longrightarrow> c_str f = f"
  by (auto simp: c_str_def)

lemma run_of_line:
  assumes "length f < MAX_FIELD_SIZE" "NL \<notin> set f"
  shows "takeWhile (\<lambda>c. c \<noteq> NL) (take 19 (f @ NL # rest)) = f"
proof -
  have "take 19 (f @ NL # rest) = f @ take (19 - length f) (NL # rest)"
    using assms(1) by (simp add: MAX_FIELD_SIZE_def)
  moreover have "takeWhile (\<lambda>c. c \<noteq> NL) (take n (NL # rest)) = []" for n
    by (cases n) simp_all
  moreover have "takeWhile (\<lambda>c. c \<noteq> NL) (f @ ys) = f @ takeWhile (\<lambda>c. c \<noteq> NL) ys" for ys
    using assms(2) by (intro takeWhile_append2) auto
  ultimately show ?thesis
    by simp
qed

lemma fscanf_field_line:
  "length f < MAX_FIELD_SIZE \<Longrightarrow> NL \<notin> set f \<Longrightarrow> f \<noteq> [] \<Longrightarrow>
   fscanf_field (f @ NL # rest) = Some (c_str f, rest)"
  using run_of_line [of f rest] by (simp add: fscanf_field_def Let_def)

lemma fscanf_field_empty_line: "fscanf_field (NL # rest) = None"
  by (simp add: fscanf_field_def MAX_FIELD_SIZE_def)

lemma fscanf_field_eof: "fscanf_field [] = None"
  by (simp add: fscanf_field_def)

lemma fprintf_employee_unfold:
  "fprintf_employee r = Employee_Name r @ NL # Employee_ID r @ NL # Employee_Age r @ NL #
     Employee_Position r @ NL # Employee_Salary r @ [NL]"
  by (simp add: fprintf_employee_def)

lemma fscanf_fprintf_full:
  assumes "line_safe (Employee_Name r)" "line_safe (Employee_ID r)" "line_safe (Employee_Age r)"
    "line_safe (Employee_Position r)" "line_safe (Employee_Salary r)"
  shows "fscanf_employee (fprintf_employee r) (e::EmployeeDetails) = r"
  using assms
  by (cases r; cases e) (simp add: fscanf_employee_def fprintf_employee_unfold line_safe_def fscanf_field_line c_str_id)

lemma fscanf_fprintf_gap:
  assumes "fits_employee r"
    and "NL \<notin> set (Employee_Name r)" "NL \<notin> set (Employee_ID r)" "NL \<notin> set (Employee_Age r)"
    "NL \<notin> set (Employee_Position r)" "NL \<notin> set (Employee_Salary r)"
    and "Employee_Name r = [] \<or> Employee_ID r = [] \<or> Employee_Age r = [] \<or>
      Employee_Position r = [] \<or> Employee_Salary r = []"
  shows "fscanf_employee (fprintf_employee r) e = zero_employee"
proof (cases "Employee_Name r = []")
  case True
  then show ?thesis by (simp add: fscanf_employee_def fprintf_employee_unfold fscanf_field_empty_line)
next
  case n1: False
  show ?thesis
  proof (cases "Employee_ID r = []")
    case True
    with n1 assms(1,2) show ?thesis
      by (simp add: fscanf_employee_def fprintf_employee_unfold fscanf_field_empty_line
          fscanf_field_line fits_employee_def fits_field_def)
  next
    case n2: False
    show ?thesis
    proof (cases "Employee_Age r = []")
      case True
      with n1 n2 assms(1-3) show ?thesis
        by (simp add: fscanf_employee_def fprintf_employee_unfold fscanf_field_empty_line
            fscanf_field_line fits_employee_def fits_field_def)
    next
      case n3: False
      show ?thesis
      proof (cases "Employee_Position r = []")
        case True
        with n1 n2 n3 assms(1-4) show ?thesis
          by (simp add: fscanf_employee_def fprintf_employee_unfold fscanf_field_empty_line
              fscanf_field_line fits_employee_def fits_field_def)
      next
        case n4: False
        with assms(7) n1 n2 n3 have "Employee_Salary r = []" by simp
        with n1 n2 n3 n4 assms(1-5) show ?thesis
          by (simp add: fscanf_employee_def fprintf_employee_unfold fscanf_field_empty_line
              fscanf_field_line fits_employee_def fits_field_def)
      qed
    qed
  qed
qed

lemma fscanf_fprintf_plain:
  assumes "plain_employee r"
  shows "fscanf_employee (fprintf_employee r) e = (if no_empty_field r then r else zero_employee)"
proof (cases "no_empty_field r")
  case True
  with assms have "fscanf_employee (fprintf_employee r) e = r"
    by (intro fscanf_fprintf_full)
      (simp_all add: plain_employee_def no_empty_field_def fits_employee_def fits_field_def
        line_safe_def)
  with True show ?thesis by simp
next
  case False
  with assms have "fscanf_employee (fprintf_employee r) e = zero_employee"
    by (intro fscanf_fprintf_gap) (auto simp: plain_employee_def no_empty_field_def)
  with False show ?thesis by simp
qed

lemma fscanf_zero_employee: "fscanf_employee (fprintf_employee zero_employee) e = zero_employee"
  by (simp add: fscanf_employee_def fprintf_employee_unfold zero_employee_def
      fscanf_field_empty_line)

lemma Employee_ID_zero: "Employee_ID zero_employee = []"
  by (simp add: zero_employee_def)

subsection \<open>Paths of the slots\<close>

lemma slot_filename_digit:
  "0 \<le> i \<Longrightarrow> i < MAX_ROWS \<Longrightarrow>
   slot_filename i = ''/spiffs/data_'' @ [char_of (48 + nat i)] @ ''.txt''"
  by (simp add: slot_filename_def printf_d_def snprintf_s_def MAX_FILENAME_SIZE_def
      MAX_ROWS_def dec_digits.simps)

lemma slot_filename_inj:
  assumes "0 \<le> i" "i < MAX_ROWS" "0 \<le> j" "j < MAX_ROWS"
  shows "slot_filename i = slot_filename j \<longleftrightarrow> i = j"
proof
  assume "slot_filename i = slot_filename j"
  with assms have "char_of (48 + nat i) = (char_of (48 + nat j) :: char)"
    by (simp add: slot_filename_digit)
  then have "(48 + nat i) mod 256 = (48 + nat j) mod 256"
    by (simp only: char_of_quasi_inj)
  with assms show "i = j"
    by (simp add: MAX_ROWS_def)
qed simp

lemma slot_cases:
  assumes "0 \<le> j" "j < MAX_ROWS"
  shows "j = 0 \<or> j = 1 \<or> j = 2 \<or> j = 3 \<or> j = 4 \<or> j = 5 \<or> j = 6 \<or> j = 7 \<or> j = 8 \<or> j = 9"
  using assms unfolding MAX_ROWS_def by arith

subsection \<open>Slot operations started with the mutex free\<close>

lemma write_employee_details_free:
  assumes "\<not> mutex_held s"
  shows "write_employee_details i r s =
    Some (s\<lparr>files := written (open_w_fails s) (files s) i r,
            trace := trace s @ write_events (open_w_fails s) i\<rparr>)"
  using assms
  by (cases s) (simp add: write_employee_details_def lock_spiffs_def unlock_spiffs_def emit_def
      written_def write_events_def Let_def)

lemma read_employee_details_free:
  assumes "\<not> mutex_held s"
  shows "read_employee_details i e s =
    Some (case files s (slot_filename i) of None \<Rightarrow> e | Some content \<Rightarrow> fscanf_employee content e,
          s\<lparr>trace := trace s @ read_events (files s) i\<rparr>)"
  using assms
  by (cases s) (simp add: read_employee_details_def lock_spiffs_def unlock_spiffs_def emit_def
      read_events_def Let_def split: option.split)

lemma write_then_read_free:
  assumes "\<not> mutex_held s" "\<not> open_w_fails s (slot_filename i)"
  shows "write_then_read i r e s = Some (fscanf_employee (fprintf_employee r) e)"
  using assms
  by (simp add: write_then_read_def write_employee_details_free read_employee_details_free
      written_def)

lemma slot_view_other:
  assumes "0 \<le> i" "i < MAX_ROWS" "0 \<le> j" "j < MAX_ROWS" "j \<noteq> i"
  shows "slot_view stack (fs(slot_filename i \<mapsto> content)) j = slot_view stack fs j"
  using assms by (simp add: slot_view_def slot_filename_inj)

lemma slot_view_same:
  "slot_view stack (fs(slot_filename i \<mapsto> content)) i = fscanf_employee content (stack i)"
  by (simp add: slot_view_def)

subsection \<open>The scans\<close>

lemma matching_slot_beyond: "MAX_ROWS \<le> i \<Longrightarrow> matching_slot stack fs employee_id i = None"
  by (simp add: matching_slot_def)

lemma matching_slot_step:
  "i < MAX_ROWS \<Longrightarrow> matching_slot stack fs employee_id i =
     (if Employee_ID (slot_view stack fs i) = employee_id then Some i
      else matching_slot stack fs employee_id (i + 1))"
  by (simp add: matching_slot_def upto_rec1)

lemma matching_slot_Some:
  assumes "matching_slot stack fs employee_id i = Some k"
  shows "i \<le> k \<and> k < MAX_ROWS \<and> Employee_ID (slot_view stack fs k) = employee_id \<and>
    (\<forall>j\<in>{i..<k}. Employee_ID (slot_view stack fs j) \<noteq> employee_id)"
proof -
  from assms obtain n where n: "n < length [i..MAX_ROWS - 1]" "[i..MAX_ROWS - 1] ! n = k"
    "Employee_ID (slot_view stack fs k) = employee_id"
    "\<forall>m<n. Employee_ID (slot_view stack fs ([i..MAX_ROWS - 1] ! m)) \<noteq> employee_id"
    unfolding matching_slot_def find_Some_iff by blast
  from n(1,2) have k: "k = i + int n" "i + int n \<le> MAX_ROWS - 1"
    by auto
  have "Employee_ID (slot_view stack fs j) \<noteq> employee_id" if "j \<in> {i..<k}" for j
  proof -
    from that k have "nat (j - i) < n" "[i..MAX_ROWS - 1] ! nat (j - i) = j"
      by auto
    with n(4) show ?thesis by metis
  qed
  with k n(3) show ?thesis by auto
qed

lemma matching_slot_None:
  "matching_slot stack fs employee_id i = None \<longleftrightarrow>
   (\<forall>j\<in>{i..<MAX_ROWS}. Employee_ID (slot_view stack fs j) \<noteq> employee_id)"
  by (auto simp: matching_slot_def find_None_iff)

lemma matching_slot_first:
  assumes "i \<le> k" "k < MAX_ROWS" "Employee_ID (slot_view stack fs k) = employee_id"
    and "\<forall>j\<in>{i..<k}. Employee_ID (slot_view stack fs j) \<noteq> employee_id"
  shows "matching_slot stack fs employee_id i = Some k"
proof (cases "matching_slot stack fs employee_id i")
  case None
  with assms show ?thesis
    by (auto simp: matching_slot_None)
next
  case (Some k')
  from matching_slot_Some [OF Some] assms have "k' = k"
    by (metis atLeastLessThan_iff linorder_neqE_linordered_idom)
  with Some show ?thesis by simp
qed

lemma get_employee_loop_free:
  "\<not> mutex_held s \<Longrightarrow>
   get_employee_loop employee_id stack i s =
     Some (case matching_slot stack (files s) employee_id i of
             None \<Rightarrow> (zero_employee,
               s\<lparr>trace := trace s @ concat (map (read_events (files s)) [i..MAX_ROWS - 1])\<rparr>)
           | Some k \<Rightarrow> (slot_view stack (files s) k,
               s\<lparr>trace := trace s @ concat (map (read_events (files s)) [i..k])\<rparr>))"
proof (induction employee_id stack i s rule: get_employee_loop.induct)
  case (1 employee_id stack i s)
  show ?case
  proof (cases "i < MAX_ROWS")
    case False
    then show ?thesis
      by (subst get_employee_loop.simps) (simp add: matching_slot_beyond)
  next
    case True
    let ?s' = "s\<lparr>trace := trace s @ read_events (files s) i\<rparr>"
    have rd: "read_employee_details i (stack i) s = Some (slot_view stack (files s) i, ?s')"
      using "1.prems" by (simp add: read_employee_details_free slot_view_def)
    show ?thesis
    proof (cases "Employee_ID (slot_view stack (files s) i) = employee_id")
      case hit: True
      with True rd show ?thesis
        by (subst get_employee_loop.simps) (simp add: matching_slot_step)
    next
      case miss: False
      have free': "\<not> mutex_held ?s'"
        using "1.prems" by simp
      note IH = "1.IH" [OF True rd refl miss free']
      show ?thesis
      proof (cases "matching_slot stack (files s) employee_id (i + 1)")
        case None
        with True miss rd IH show ?thesis
          by (subst get_employee_loop.simps) (simp add: matching_slot_step upto_rec1)
      next
        case (Some k)
        then have "i + 1 \<le> k"
          using matching_slot_Some by blast
        with Some True miss rd IH show ?thesis
          by (subst get_employee_loop.simps) (simp add: matching_slot_step upto_rec1)
      qed
    qed
  qed
qed

lemma delete_employee_loop_free:
  "\<not> mutex_held s \<Longrightarrow>
   delete_employee_loop employee_id stack i s =
     Some (case matching_slot stack (files s) employee_id i of
             None \<Rightarrow> (Not_Found,
               s\<lparr>trace := trace s @ concat (map (read_events (files s)) [i..MAX_ROWS - 1])\<rparr>)
           | Some k \<Rightarrow> (Deleted_Successfully,
               s\<lparr>files := written (open_w_fails s) (files s) k zero_employee,
                 trace := trace s @ concat (map (read_events (files s)) [i..k])
                   @ write_events (open_w_fails s) k\<rparr>))"
proof (induction employee_id stack i s rule: delete_employee_loop.induct)
  case (1 employee_id stack i s)
  show ?case
  proof (cases "i < MAX_ROWS")
    case False
    then show ?thesis
      by (subst delete_employee_loop.simps) (simp add: matching_slot_beyond)
  next
    case True
    let ?s' = "s\<lparr>trace := trace s @ read_events (files s) i\<rparr>"
    have rd: "read_employee_details i (stack i) s = Some (slot_view stack (files s) i, ?s')"
      using "1.prems" by (simp add: read_employee_details_free slot_view_def)
    have free': "\<not> mutex_held ?s'"
      using "1.prems" by simp
    show ?thesis
    proof (cases "Employee_ID (slot_view stack (files s) i) = employee_id")
      case hit: True
      with True rd free' show ?thesis
        by (subst delete_employee_loop.simps)
          (simp add: matching_slot_step write_employee_details_free)
    next
      case miss: False
      note IH = "1.IH" [OF True rd refl miss free']
      show ?thesis
      proof (cases "matching_slot stack (files s) employee_id (i + 1)")
        case None
        with True miss rd IH show ?thesis
          by (subst delete_employee_loop.simps) (simp add: matching_slot_step upto_rec1)
      next
        case (Some k)
        then have "i + 1 \<le> k"
          using matching_slot_Some by blast
        with Some True miss rd IH show ?thesis
          by (subst delete_employee_loop.simps) (simp add: matching_slot_step upto_rec1)
      qed
    qed
  qed
qed

lemma add_new_employee_free:
  assumes "\<not> mutex_held s" "num_employees s < MAX_ROWS"
  shows "add_new_employee name emp_id age position salary s =
    Some (New_Employee_Added (inserted name emp_id age position salary),
          s\<lparr>files := written (open_w_fails s) (files s) (num_employees s)
                      (inserted name emp_id age position salary),
            trace := trace s @ write_events (open_w_fails s) (num_employees s),
            num_employees := num_employees s + 1\<rparr>)"
  using assms
  by (simp add: add_new_employee_def write_employee_details_free inserted_def mk_employee_def Let_def)

subsection \<open>The stores used as examples\<close>

lemma plain_john: "plain_employee john \<and> no_empty_field john"
  by (simp add: john_def plain_employee_def no_empty_field_def fits_employee_def fits_field_def
      mk_employee_def MAX_FIELD_SIZE_def NUL_def NL_def)

lemma plain_jane: "plain_employee jane \<and> no_empty_field jane"
  by (simp add: jane_def plain_employee_def no_empty_field_def fits_employee_def fits_field_def
      mk_employee_def MAX_FIELD_SIZE_def NUL_def NL_def)

lemma demo_store_free: "\<not> mutex_held demo_store"
  by (simp add: demo_store_def boot_def)

lemma demo_store_opens: "\<not> open_w_fails demo_store path"
  by (simp add: demo_store_def boot_def)

lemma demo_store_view:
  assumes "0 \<le> j" "j < MAX_ROWS"
  shows "slot_view zero_stack (files demo_store) j =
    (if j = 0 then john else if j = 1 then jane else zero_employee)"
proof -
  have names: "slot_filename j = slot_filename 0 \<longleftrightarrow> j = 0"
    "slot_filename j = slot_filename 1 \<longleftrightarrow> j = 1"
    "slot_filename j = slot_filename 2 \<longleftrightarrow> j = 2"
    using assms by (simp_all add: slot_filename_inj MAX_ROWS_def)
  have distinct: "slot_filename 0 \<noteq> slot_filename 1" "slot_filename 0 \<noteq> slot_filename 2"
    "slot_filename 1 \<noteq> slot_filename 2"
    by (simp_all add: slot_filename_inj MAX_ROWS_def)
  show ?thesis
    using plain_john plain_jane
    by (simp add: slot_view_def demo_store_def boot_def names distinct fscanf_fprintf_plain
        fscanf_zero_employee zero_stack_def)
qed

lemma demo_store_ids:
  assumes "0 \<le> j" "j < MAX_ROWS"
  shows "Employee_ID (slot_view zero_stack (files demo_store) j) =
    (if j = 0 then ''EMP001'' else if j = 1 then ''EMP002'' else [])"
  using assms
  by (simp add: demo_store_view john_def jane_def mk_employee_def Employee_ID_zero)

lemma employees_plain:
  assumes "0 \<le> j" "j < MAX_ROWS"
  shows "plain_employee (employees ! nat j) \<and> no_empty_field (employees ! nat j)"
  using slot_cases [OF assms]
  by (elim disjE)
    (simp_all add: employees_def plain_employee_def no_empty_field_def fits_employee_def
      fits_field_def mk_employee_def MAX_FIELD_SIZE_def NUL_def NL_def)

lemma employees_ids:
  assumes "0 \<le> j" "j < MAX_ROWS"
  shows "Employee_ID (employees ! nat j) =
    [''EMP001'', ''EMP002'', ''EMP003'', ''EMP004'', ''EMP005'', ''EMP006'', ''EMP007'',
     ''EMP008'', ''EMP009'', ''EMP010''] ! nat j"
  using slot_cases [OF assms]
  by (elim disjE) (simp_all add: employees_def mk_employee_def)

lemma seed_loop_free:
  assumes "\<not> mutex_held s" "0 \<le> i" "\<forall>j\<in>{0..<MAX_ROWS}. \<not> open_w_fails s (slot_filename j)"
  shows "\<exists>s'. seed_loop i s = Some s' \<and> \<not> mutex_held s' \<and> num_employees s' = num_employees s \<and>
    open_w_fails s' = open_w_fails s \<and>
    (\<forall>j\<in>{0..<MAX_ROWS}. files s' (slot_filename j) =
       (if i \<le> j then Some (fprintf_employee (employees ! nat j)) else files s (slot_filename j)))"
  using assms
proof (induction i s rule: seed_loop.induct)
  case (1 i s)
  show ?case
  proof (cases "i < MAX_ROWS")
    case False
    then show ?thesis
      using "1.prems" by (subst seed_loop.simps) simp
  next
    case True
    let ?s1 = "s\<lparr>files := (files s)(slot_filename i \<mapsto> fprintf_employee (employees ! nat i)),
      trace := trace s @ write_events (open_w_fails s) i\<rparr>"
    have wr: "write_employee_details i (employees ! nat i) s = Some ?s1"
      using "1.prems" True by (simp add: write_employee_details_free written_def)
    have "\<exists>s'. seed_loop (i + 1) ?s1 = Some s' \<and> \<not> mutex_held s' \<and>
        num_employees s' = num_employees ?s1 \<and> open_w_fails s' = open_w_fails ?s1 \<and>
        (\<forall>j\<in>{0..<MAX_ROWS}. files s' (slot_filename j) =
           (if i + 1 \<le> j then Some (fprintf_employee (employees ! nat j))
            else files ?s1 (slot_filename j)))"
      using "1.prems" by (intro "1.IH" [OF True wr]) simp_all
    then obtain s' where s': "seed_loop (i + 1) ?s1 = Some s'" "\<not> mutex_held s'"
      "num_employees s' = num_employees s" "open_w_fails s' = open_w_fails s"
      "\<forall>j\<in>{0..<MAX_ROWS}. files s' (slot_filename j) =
           (if i + 1 \<le> j then Some (fprintf_employee (employees ! nat j))
            else files ?s1 (slot_filename j))"
      by auto
    have "files s' (slot_filename j) =
       (if i \<le> j then Some (fprintf_employee (employees ! nat j)) else files s (slot_filename j))"
      if j: "j \<in> {0..<MAX_ROWS}" for j
    proof (cases "j = i")
      case True
      with s'(5) j show ?thesis by simp
    next
      case False
      with s'(5) j True "1.prems"(2) show ?thesis
        by (simp add: slot_filename_inj)
    qed
    with s'(1-4) True wr show ?thesis
      by (subst seed_loop.simps) simp
  qed
qed

lemma slot_view_seeded:
  assumes "0 \<le> j" "j < MAX_ROWS" "fs (slot_filename j) = Some (fprintf_employee (employees ! nat j))"
  shows "slot_view stack fs j = employees ! nat j"
  using assms employees_plain [of j] by (simp add: slot_view_def fscanf_fprintf_plain)

lemma after_inserts_plain:
  assumes "0 \<le> j" "j < MAX_ROWS"
  shows "plain_employee (after_inserts ! nat j) \<and> no_empty_field (after_inserts ! nat j)"
  using slot_cases [OF assms]
  by (elim disjE)
    (simp_all add: after_inserts_def new_employees_def employees_def plain_employee_def
      no_empty_field_def fits_employee_def fits_field_def mk_employee_def MAX_FIELD_SIZE_def
      NUL_def NL_def)

lemma after_inserts_ids:
  assumes "0 \<le> j" "j < MAX_ROWS"
  shows "Employee_ID (after_inserts ! nat j) =
    [''EMP011'', ''EMP012'', ''EMP013'', ''EMP014'', ''EMP005'', ''EMP006'', ''EMP007'',
     ''EMP008'', ''EMP009'', ''EMP010''] ! nat j"
  using slot_cases [OF assms]
  by (elim disjE) (simp_all add: after_inserts_def new_employees_def employees_def mk_employee_def)

lemma after_inserts_nth:
  "after_inserts ! 0 = new_employees ! 0" "after_inserts ! Suc 0 = new_employees ! Suc 0"
  "after_inserts ! 2 = new_employees ! 2" "after_inserts ! 3 = new_employees ! 3"
  "after_inserts ! 4 = employees ! 4" "after_inserts ! 5 = employees ! 5"
  "after_inserts ! 6 = employees ! 6" "after_inserts ! 7 = employees ! 7"
  "after_inserts ! 8 = employees ! 8" "after_inserts ! 9 = employees ! 9"
  by (simp_all add: after_inserts_def new_employees_def employees_def)

lemma slot_view_after_inserts:
  assumes "0 \<le> j" "j < MAX_ROWS" "fs (slot_filename j) = Some (fprintf_employee (after_inserts ! nat j))"
  shows "slot_view stack fs j = after_inserts ! nat j"
  using assms after_inserts_plain [of j] by (simp add: slot_view_def fscanf_fprintf_plain)

subsection \<open>Round trip through a slot\<close>

text \<open>
  C1, as the code has it. Let slot \<open>i\<close> be any slot whose file opens for writing, and \<open>r\<close>
  a record whose five fields are C strings of at most 19 bytes without a newline. Reading
  slot \<open>i\<close> immediately after writing \<open>r\<close> to it yields \<open>r\<close> when none of the five fields
  is empty, and the all-zero record when some field is empty. So the round trip returns \<open>r\<close>
  exactly when the fields of \<open>r\<close> are all non-empty or all empty. Writing truncates nothing.
\<close>

theorem write_then_read_round_trip:
  assumes "\<not> mutex_held s" and "\<not> open_w_fails s (slot_filename i)" and "plain_employee r"
  shows "write_then_read i r e s = Some (if no_empty_field r then r else zero_employee)"
  using assms by (simp add: write_then_read_free fscanf_fprintf_plain)

theorem write_then_read_round_trip_witness:
  "write_then_read 3 (mk_employee ''Raju'' ''EMP004'' ''29'' ''JuniorExecutive'' ''30000'')
     zero_employee boot
   = Some (mk_employee ''Raju'' ''EMP004'' ''29'' ''JuniorExecutive'' ''30000'')"
  using write_then_read_round_trip [of boot 3
      "mk_employee ''Raju'' ''EMP004'' ''29'' ''JuniorExecutive'' ''30000''" zero_employee]
  by (simp add: boot_def plain_employee_def no_empty_field_def fits_employee_def fits_field_def
      mk_employee_def MAX_FIELD_SIZE_def NUL_def NL_def)

text \<open>
  A record with an empty field does not survive the round trip: written to slot 0 of a fresh
  partition and read back, the record with an empty position comes back all-zero.
\<close>

theorem write_then_read_counterexample:
  "write_then_read 0 (mk_employee ''JohnDoe'' ''EMP001'' ''30'' [] ''50000'')
     (mk_employee ''JohnDoe'' ''EMP001'' ''30'' [] ''50000'') boot
   = Some zero_employee \<and>
   zero_employee \<noteq> mk_employee ''JohnDoe'' ''EMP001'' ''30'' [] ''50000''"
proof -
  have "plain_employee (mk_employee ''JohnDoe'' ''EMP001'' ''30'' [] ''50000'')"
    by (simp add: plain_employee_def fits_employee_def fits_field_def
      mk_employee_def MAX_FIELD_SIZE_def NUL_def NL_def)
  moreover have "\<not> no_empty_field (mk_employee ''JohnDoe'' ''EMP001'' ''30'' [] ''50000'')"
    by (simp add: no_empty_field_def mk_employee_def)
  moreover have "\<not> mutex_held boot" "\<not> open_w_fails boot (slot_filename 0)"
    by (simp_all add: boot_def)
  ultimately show ?thesis
    by (simp add: write_then_read_free fscanf_fprintf_plain)
      (simp add: zero_employee_def mk_employee_def)
qed

subsection \<open>The startup sequence\<close>

lemma app_main_inserts_free:
  assumes "\<forall>j\<in>{0..<MAX_ROWS}. \<not> open_w_fails s0 (slot_filename j)" and "num_employees s0 = 0"
  shows "\<exists>s5. app_main_inserts s0 = Some (map New_Employee_Added new_employees, s5) \<and>
    \<not> mutex_held s5 \<and> num_employees s5 = 4 \<and> open_w_fails s5 = open_w_fails s0 \<and>
    (\<forall>j\<in>{0..<MAX_ROWS}. files s5 (slot_filename j) =
       Some (fprintf_employee (after_inserts ! nat j)))"
proof -
  let ?s0 = "s0\<lparr>mutex_held := False\<rparr>"
  have "\<not> mutex_held ?s0" "\<forall>j\<in>{0..<MAX_ROWS}. \<not> open_w_fails ?s0 (slot_filename j)"
    using assms(1) by simp_all
  from seed_loop_free [OF this(1) order_refl this(2)]
  obtain s1 where s1: "seed_loop 0 ?s0 = Some s1" "\<not> mutex_held s1"
    "num_employees s1 = 0" "open_w_fails s1 = open_w_fails s0"
    "\<forall>j\<in>{0..<MAX_ROWS}. files s1 (slot_filename j) = Some (fprintf_employee (employees ! nat j))"
    using assms(2) by auto
  have opens: "\<not> open_w_fails s0 (slot_filename 0)" "\<not> open_w_fails s0 (slot_filename 1)"
    "\<not> open_w_fails s0 (slot_filename 2)" "\<not> open_w_fails s0 (slot_filename 3)"
    using assms(1) by (simp_all add: MAX_ROWS_def)
  have ins: "inserted ''New Employee 1'' ''EMP011'' ''25'' ''New Position 1'' ''60000'' = new_employees ! 0"
    "inserted ''New Employee 2'' ''EMP012'' ''27'' ''New Position 2'' ''65000'' = new_employees ! 1"
    "inserted ''New Employee 3'' ''EMP013'' ''29'' ''New Position 3'' ''70000'' = new_employees ! 2"
    "inserted ''New Employee 4'' ''EMP014'' ''30'' ''New Position 4'' ''75000'' = new_employees ! 3"
    by (simp_all add: inserted_def new_employees_def snprintf_s_def MAX_FIELD_SIZE_def)
  let ?s2 = "s1\<lparr>files := (files s1)(slot_filename 0 \<mapsto> fprintf_employee (new_employees ! 0)),
    trace := trace s1 @ write_events (open_w_fails s1) 0, num_employees := 1\<rparr>"
  let ?s3 = "?s2\<lparr>files := (files ?s2)(slot_filename 1 \<mapsto> fprintf_employee (new_employees ! 1)),
    trace := trace ?s2 @ write_events (open_w_fails ?s2) 1, num_employees := 2\<rparr>"
  let ?s4 = "?s3\<lparr>files := (files ?s3)(slot_filename 2 \<mapsto> fprintf_employee (new_employees ! 2)),
    trace := trace ?s3 @ write_events (open_w_fails ?s3) 2, num_employees := 3\<rparr>"
  let ?s5 = "?s4\<lparr>files := (files ?s4)(slot_filename 3 \<mapsto> fprintf_employee (new_employees ! 3)),
    trace := trace ?s4 @ write_events (open_w_fails ?s4) 3, num_employees := 4\<rparr>"
  have a1: "add_new_employee ''New Employee 1'' ''EMP011'' ''25'' ''New Position 1'' ''60000'' s1
      = Some (New_Employee_Added (new_employees ! 0), ?s2)"
    using s1(2,3,4) opens by (simp add: add_new_employee_free ins written_def MAX_ROWS_def)
  have a2: "add_new_employee ''New Employee 2'' ''EMP012'' ''27'' ''New Position 2'' ''65000'' ?s2
      = Some (New_Employee_Added (new_employees ! 1), ?s3)"
    using s1(2,4) opens by (simp add: add_new_employee_free ins written_def MAX_ROWS_def)
  have a3: "add_new_employee ''New Employee 3'' ''EMP013'' ''29'' ''New Position 3'' ''70000'' ?s3
      = Some (New_Employee_Added (new_employees ! 2), ?s4)"
    using s1(2,4) opens by (simp add: add_new_employee_free ins written_def MAX_ROWS_def)
  have a4: "add_new_employee ''New Employee 4'' ''EMP014'' ''30'' ''New Position 4'' ''75000'' ?s4
      = Some (New_Employee_Added (new_employees ! 3), ?s5)"
    using s1(2,4) opens by (simp add: add_new_employee_free ins written_def MAX_ROWS_def)
  have run: "app_main_inserts s0 = Some (map New_Employee_Added new_employees, ?s5)"
    unfolding app_main_inserts_def
    by (simp only: s1(1) a1 a2 a3 a4 bind.bind_lunit prod.case)
      (simp add: new_employees_def)
  have "files ?s5 (slot_filename j) = Some (fprintf_employee (after_inserts ! nat j))"
    if j: "j \<in> {0..<MAX_ROWS}" for j
  proof -
    from j have range: "0 \<le> j" "j < MAX_ROWS" by simp_all
    from slot_cases [OF range] s1(5) j show ?thesis
      by (elim disjE)
        (simp_all add: slot_filename_inj MAX_ROWS_def after_inserts_nth)
  qed
  with run s1(2,4) show ?thesis
    by (intro exI [of _ ?s5]) simp
qed

lemma app_main_tail:
  assumes "\<not> mutex_held s5" and "\<not> open_w_fails s5 (slot_filename 5)"
    and "\<forall>j\<in>{0..<MAX_ROWS}. files s5 (slot_filename j) =
      Some (fprintf_employee (after_inserts ! nat j))"
  shows "\<exists>s6 s7. delete_employee_by_id ''EMP006'' stack_delete s5 = Some (Deleted_Successfully, s6) \<and>
    get_employee_details_by_id ''EMP009'' stack_get s6 = Some (employees ! 8, s7) \<and>
    num_employees s7 = num_employees s5 \<and>
    files s7 = (files s5)(slot_filename 5 \<mapsto> fprintf_employee zero_employee)"
proof -
  let ?fs6 = "(files s5)(slot_filename 5 \<mapsto> fprintf_employee zero_employee)"
  let ?s6 = "s5\<lparr>files := ?fs6,
      trace := trace s5 @ concat (map (read_events (files s5)) [0..5])
        @ write_events (open_w_fails s5) 5\<rparr>"
  let ?s7 = "?s6\<lparr>trace := trace ?s6 @ concat (map (read_events ?fs6) [0..8])\<rparr>"
  have view5: "slot_view stack (files s5) j = after_inserts ! nat j"
    if "j \<in> {0..<MAX_ROWS}" for j stack
    using that assms(3) by (simp add: slot_view_after_inserts)
  have ids5: "Employee_ID (slot_view stack (files s5) j) \<noteq> ''EMP006''"
    if "j \<in> {0..<5}" for j stack
  proof -
    from that have "0 \<le> j" "j < MAX_ROWS" by (simp_all add: MAX_ROWS_def)
    from slot_cases [OF this] that view5 [of j stack] after_inserts_ids [OF this] show ?thesis
      by (elim disjE) (simp_all add: MAX_ROWS_def)
  qed
  have "Employee_ID (slot_view stack_delete (files s5) 5) = ''EMP006''"
    using view5 [of 5 stack_delete] after_inserts_ids [of 5] by (simp add: MAX_ROWS_def)
  with ids5 have "matching_slot stack_delete (files s5) ''EMP006'' 0 = Some 5"
    by (intro matching_slot_first) (simp_all add: MAX_ROWS_def)
  with assms(1,2) have del: "delete_employee_by_id ''EMP006'' stack_delete s5 =
      Some (Deleted_Successfully, ?s6)"
    by (simp add: delete_employee_by_id_def delete_employee_loop_free written_def)
  have view6: "slot_view stack_get ?fs6 j = (if j = 5 then zero_employee else after_inserts ! nat j)"
    if "j \<in> {0..<MAX_ROWS}" for j
    using that view5 [of j stack_get]
    by (simp add: slot_view_other slot_view_same fscanf_zero_employee MAX_ROWS_def)
  have ids6: "Employee_ID (slot_view stack_get ?fs6 j) \<noteq> ''EMP009''"
    if "j \<in> {0..<8}" for j
  proof -
    from that have "0 \<le> j" "j < MAX_ROWS" by (simp_all add: MAX_ROWS_def)
    from slot_cases [OF this] that view6 [of j] after_inserts_ids [OF this] show ?thesis
      by (elim disjE) (simp_all add: MAX_ROWS_def Employee_ID_zero)
  qed
  have hit: "slot_view stack_get ?fs6 8 = employees ! 8"
    using view6 [of 8] by (simp add: MAX_ROWS_def after_inserts_nth)
  then have "Employee_ID (slot_view stack_get ?fs6 8) = ''EMP009''"
    using employees_ids [of 8] by (simp add: MAX_ROWS_def)
  with ids6 have "matching_slot stack_get ?fs6 ''EMP009'' 0 = Some 8"
    by (intro matching_slot_first) (simp_all add: MAX_ROWS_def)
  moreover have "\<not> mutex_held ?s6" "files ?s6 = ?fs6"
    using assms(1) by simp_all
  ultimately have get: "get_employee_details_by_id ''EMP009'' stack_get ?s6 = Some (employees ! 8, ?s7)"
    using hit by (simp add: get_employee_details_by_id_def get_employee_loop_free)
  from del get show ?thesis
    by (intro exI [of _ ?s6] exI [of _ ?s7]) simp
qed

lemma app_main_free:
  assumes "\<forall>j\<in>{0..<MAX_ROWS}. \<not> open_w_fails s0 (slot_filename j)" and "num_employees s0 = 0"
  shows "\<exists>s5 s7. app_main_inserts s0 = Some (map New_Employee_Added new_employees, s5) \<and>
           num_employees s5 = 4 \<and>
           (\<forall>j\<in>{0..<MAX_ROWS}. files s5 (slot_filename j) =
              Some (fprintf_employee (after_inserts ! nat j))) \<and>
           app_main stack_delete stack_get s0 =
             Some ((map New_Employee_Added new_employees, Deleted_Successfully, employees ! 8), s7) \<and>
           num_employees s7 = 4 \<and>
           files s7 = (files s5)(slot_filename 5 \<mapsto> fprintf_employee zero_employee)"
proof -
  from app_main_inserts_free [OF assms]
  obtain s5 where s5: "app_main_inserts s0 = Some (map New_Employee_Added new_employees, s5)"
    "\<not> mutex_held s5" "num_employees s5 = 4" "open_w_fails s5 = open_w_fails s0"
    "\<forall>j\<in>{0..<MAX_ROWS}. files s5 (slot_filename j) = Some (fprintf_employee (after_inserts ! nat j))"
    by blast
  have "\<not> open_w_fails s5 (slot_filename 5)"
    using assms(1) s5(4) by (simp add: MAX_ROWS_def)
  from app_main_tail [OF s5(2) this s5(5), of stack_delete stack_get]
  obtain s6 s7 where tail:
    "delete_employee_by_id ''EMP006'' stack_delete s5 = Some (Deleted_Successfully, s6)"
    "get_employee_details_by_id ''EMP009'' stack_get s6 = Some (employees ! 8, s7)"
    "num_employees s7 = num_employees s5"
    "files s7 = (files s5)(slot_filename 5 \<mapsto> fprintf_employee zero_employee)"
    by blast
  have "app_main stack_delete stack_get s0 =
      Some ((map New_Employee_Added new_employees, Deleted_Successfully, employees ! 8), s7)"
    by (simp add: app_main_def s5(1) tail(1,2))
  with s5(1,3,5) tail(3,4) show ?thesis
    by (intro exI [of _ s5] exI [of _ s7]) simp
qed

text \<open>
  C2, as the code has it. Let every slot file open for writing and the counter start at 0.
  After the seeding loop and the four insertions of \<open>app_main\<close> the counter is 4, slots 0 to
  3 hold the four inserted records EMP011 to EMP014 in place of the seeded EMP001 to EMP004,
  and slots 4 to 9 still hold the seeded EMP005 to EMP010. The call
  \<open>delete_employee_by_id("EMP006")\<close> that follows finds EMP006 in slot 5, writes the all-zero
  record there and reports success; the counter stays 4, and the final lookup returns the
  record of EMP009.
\<close>

theorem app_main_scenario:
  assumes "\<forall>j\<in>{0..<MAX_ROWS}. \<not> open_w_fails s0 (slot_filename j)" and "num_employees s0 = 0"
  shows "\<exists>s5 s7. app_main_inserts s0 = Some (map New_Employee_Added new_employees, s5) \<and>
           num_employees s5 = 4 \<and>
           (\<forall>j\<in>{0..<MAX_ROWS}. files s5 (slot_filename j) =
              Some (fprintf_employee (after_inserts ! nat j))) \<and>
           app_main stack_delete stack_get s0 =
             Some ((map New_Employee_Added new_employees, Deleted_Successfully, employees ! 8), s7) \<and>
           num_employees s7 = 4 \<and>
           files s7 = (files s5)(slot_filename 5 \<mapsto> fprintf_employee zero_employee)"
  using assms by (rule app_main_free)

theorem app_main_scenario_witness:
  "\<exists>s5 s7. app_main_inserts boot = Some (map New_Employee_Added new_employees, s5) \<and>
     num_employees s5 = 4 \<and>
     app_main zero_stack zero_stack boot =
       Some ((map New_Employee_Added new_employees, Deleted_Successfully, employees ! 8), s7) \<and>
     num_employees s7 = 4 \<and>
     files s7 = (files s5)(slot_filename 5 \<mapsto> fprintf_employee zero_employee)"
proof -
  have "\<forall>j\<in>{0..<MAX_ROWS}. \<not> open_w_fails boot (slot_filename j)" "num_employees boot = 0"
    by (simp_all add: boot_def)
  from app_main_scenario [OF this, of zero_stack zero_stack] show ?thesis
    by blast
qed

text \<open>
  On a fresh partition the deletion of EMP006 in \<open>app_main\<close> reports success, not that
  the key was not found.
\<close>

theorem app_main_counterexample:
  "map_option (fst \<circ> snd \<circ> fst) (app_main zero_stack zero_stack boot) = Some Deleted_Successfully"
proof -
  have "\<forall>j\<in>{0..<MAX_ROWS}. \<not> open_w_fails boot (slot_filename j)" "num_employees boot = 0"
    by (simp_all add: boot_def)
  from app_main_free [OF this, of zero_stack zero_stack] show ?thesis
    by auto
qed

subsection \<open>A slot whose file cannot be opened\<close>

text \<open>
  C3 at the open-failure path. On a fresh partition slot 0 has no file;
  \<open>read_employee_details(0, &employee)\<close> returns with the struct as it was, here still
  holding the record of Monoj, and not the all-zero record.
\<close>

theorem read_employee_details_open_failure:
  "map_option fst (read_employee_details 0
     (mk_employee ''Monoj'' ''EMP006'' ''25'' ''MarketingExecutive'' ''40000'') boot)
   = Some (mk_employee ''Monoj'' ''EMP006'' ''25'' ''MarketingExecutive'' ''40000'')"
  by (simp add: read_employee_details_free boot_def)

text \<open>On the other failure paths, a file that does not hold five non-empty lines,
  the struct is cleared whatever it held.\<close>

lemma fscanf_employee_zero_or_full:
  "fscanf_employee content e = zero_employee \<or>
   (\<exists>name emp_id age position salary.
      fscanf_employee content e = mk_employee name emp_id age position salary)"
  by (cases e) (auto simp: fscanf_employee_def mk_employee_def split: option.splits)

subsection \<open>Insertion into a full table\<close>

text \<open>
  C4. When the counter has reached \<open>MAX_ROWS\<close>, \<open>add_new_employee\<close> reports that the
  database is full and returns the state it was given: no file is written, no file is opened,
  the mutex is not touched and the counter keeps its value.
\<close>

theorem add_new_employee_full:
  "MAX_ROWS \<le> num_employees s \<Longrightarrow>
   add_new_employee name emp_id age position salary s = Some (Database_Full, s)"
  by (simp add: add_new_employee_def)

theorem add_new_employee_full_witness:
  "MAX_ROWS \<le> num_employees (boot\<lparr>num_employees := 10\<rparr>) \<and>
   add_new_employee ''Asha'' ''EMP011'' ''31'' ''Engineer'' ''60000'' (boot\<lparr>num_employees := 10\<rparr>)
     = Some (Database_Full, boot\<lparr>num_employees := 10\<rparr>)"
  using add_new_employee_full [of "boot\<lparr>num_employees := 10\<rparr>" "''Asha''" "''EMP011''" "''31''"
      "''Engineer''" "''60000''"]
  by (simp add: MAX_ROWS_def)

subsection \<open>Insertion followed by lookup\<close>

text \<open>
  C5, as the code has it. Started with the mutex free and the counter below \<open>MAX_ROWS\<close>,
  \<open>add_new_employee\<close> builds the record of its five arguments, each cut to 19 bytes, adds 1
  to the counter, and leaves that record in the file of slot \<open>num_employees\<close> when that
  file opens for writing (and the files as they were when it does not). A lookup of the
  stored identifier then returns the stored record provided that the counter was not
  negative, the file opened, every stored field is non-empty and free of newlines, and no
  slot below \<open>num_employees\<close> reads back with the same identifier.
\<close>

theorem add_new_employee_then_find:
  assumes "\<not> mutex_held s" and "num_employees s < MAX_ROWS"
  shows "\<exists>s'. add_new_employee name emp_id age position salary s =
             Some (New_Employee_Added (inserted name emp_id age position salary), s') \<and>
           num_employees s' = num_employees s + 1 \<and>
           files s' =
             (if open_w_fails s (slot_filename (num_employees s)) then files s
              else (files s)(slot_filename (num_employees s) \<mapsto>
                     fprintf_employee (inserted name emp_id age position salary))) \<and>
           (0 \<le> num_employees s \<and> \<not> open_w_fails s (slot_filename (num_employees s)) \<and>
            plain_employee (inserted name emp_id age position salary) \<and>
            no_empty_field (inserted name emp_id age position salary) \<and>
            (\<forall>j\<in>{0..<num_employees s}.
               Employee_ID (slot_view stack (files s) j) \<noteq> snprintf_s MAX_FIELD_SIZE emp_id) \<longrightarrow>
            map_option fst (get_employee_details_by_id (snprintf_s MAX_FIELD_SIZE emp_id) stack s')
              = Some (inserted name emp_id age position salary))"
proof -
  let ?n = "num_employees s"
  let ?r = "inserted name emp_id age position salary"
  let ?s' = "s\<lparr>files := written (open_w_fails s) (files s) ?n ?r,
            trace := trace s @ write_events (open_w_fails s) ?n,
            num_employees := ?n + 1\<rparr>"
  have add: "add_new_employee name emp_id age position salary s = Some (New_Employee_Added ?r, ?s')"
    using assms by (rule add_new_employee_free)
  have find: "map_option fst (get_employee_details_by_id (snprintf_s MAX_FIELD_SIZE emp_id) stack ?s')
      = Some ?r"
    if h: "0 \<le> ?n" "\<not> open_w_fails s (slot_filename ?n)" "plain_employee ?r" "no_empty_field ?r"
      "\<forall>j\<in>{0..<?n}. Employee_ID (slot_view stack (files s) j) \<noteq> snprintf_s MAX_FIELD_SIZE emp_id"
  proof -
    let ?fs = "(files s)(slot_filename ?n \<mapsto> fprintf_employee ?r)"
    have view_n: "slot_view stack ?fs ?n = ?r"
      using h(3,4) by (simp add: slot_view_same fscanf_fprintf_plain)
    have id_r: "Employee_ID ?r = snprintf_s MAX_FIELD_SIZE emp_id"
      by (simp add: inserted_def mk_employee_def)
    have below: "\<forall>j\<in>{0..<?n}. Employee_ID (slot_view stack ?fs j) \<noteq> snprintf_s MAX_FIELD_SIZE emp_id"
      using h(1,5) assms(2) by (simp add: slot_view_other)
    have "matching_slot stack ?fs (snprintf_s MAX_FIELD_SIZE emp_id) 0 = Some ?n"
      using h(1) assms(2) view_n id_r below by (intro matching_slot_first) simp_all
    moreover have "files ?s' = ?fs"
      using h(2) by (simp add: written_def)
    moreover have "\<not> mutex_held ?s'"
      using assms(1) by simp
    ultimately show ?thesis
      using view_n by (simp add: get_employee_details_by_id_def get_employee_loop_free)
  qed
  show ?thesis
    using add find by (intro exI [of _ ?s']) (simp add: written_def)
qed

theorem add_new_employee_then_find_witness:
  "\<exists>s'. add_new_employee ''Asha'' ''EMP011'' ''31'' ''Engineer'' ''60000'' demo_store =
          Some (New_Employee_Added asha, s') \<and>
        num_employees s' = 4 \<and>
        files s' = (files demo_store)(slot_filename 3 \<mapsto> fprintf_employee asha) \<and>
        map_option fst (get_employee_details_by_id ''EMP011'' zero_stack s') = Some asha"
proof -
  have ins: "inserted ''Asha'' ''EMP011'' ''31'' ''Engineer'' ''60000'' = asha"
    "snprintf_s MAX_FIELD_SIZE ''EMP011'' = ''EMP011''"
    by (simp_all add: inserted_def asha_def snprintf_s_def MAX_FIELD_SIZE_def)
  have n: "num_employees demo_store = 3"
    by (simp add: demo_store_def)
  have pre: "0 \<le> num_employees demo_store \<and>
      \<not> open_w_fails demo_store (slot_filename (num_employees demo_store)) \<and>
      plain_employee asha \<and> no_empty_field asha \<and>
      (\<forall>j\<in>{0..<num_employees demo_store}.
         Employee_ID (slot_view zero_stack (files demo_store) j) \<noteq> ''EMP011'')"
    by (simp add: n demo_store_opens demo_store_ids MAX_ROWS_def)
      (simp add: asha_def plain_employee_def no_empty_field_def fits_employee_def fits_field_def
        mk_employee_def MAX_FIELD_SIZE_def NUL_def NL_def)
  have below: "num_employees demo_store < MAX_ROWS"
    by (simp add: n MAX_ROWS_def)
  from add_new_employee_then_find [OF demo_store_free below,
      of "''Asha''" "''EMP011''" "''31''" "''Engineer''" "''60000''" zero_stack]
  show ?thesis
    using pre by (simp add: ins n demo_store_opens)
qed

text \<open>
  An insertion with an empty argument is not found again: on the store that the seeding loop
  of \<open>app_main\<close> leaves, the lookup of an employee inserted with an empty age returns the
  all-zero record.
\<close>

theorem add_new_employee_then_find_counterexample:
  "Option.bind (seed_loop 0 boot)
     (insert_then_find ''Asha'' ''EMP011'' [] ''Engineer'' ''60000'' zero_stack)
   = Some (New_Employee_Added (mk_employee ''Asha'' ''EMP011'' [] ''Engineer'' ''60000''),
           zero_employee)"
proof -
  let ?r = "mk_employee ''Asha'' ''EMP011'' [] ''Engineer'' ''60000''"
  have ins: "inserted ''Asha'' ''EMP011'' [] ''Engineer'' ''60000'' = ?r"
    "snprintf_s MAX_FIELD_SIZE ''EMP011'' = ''EMP011''"
    by (simp_all add: inserted_def snprintf_s_def MAX_FIELD_SIZE_def)
  have r: "plain_employee ?r" "\<not> no_empty_field ?r"
    by (simp_all add: plain_employee_def no_empty_field_def fits_employee_def fits_field_def
        mk_employee_def MAX_FIELD_SIZE_def NUL_def NL_def)
  have "\<not> mutex_held boot" "\<forall>j\<in>{0..<MAX_ROWS}. \<not> open_w_fails boot (slot_filename j)"
    by (simp_all add: boot_def)
  from seed_loop_free [OF this(1) order_refl this(2)]
  obtain s1 where s1: "seed_loop 0 boot = Some s1" "\<not> mutex_held s1"
    "num_employees s1 = num_employees boot" "open_w_fails s1 = open_w_fails boot"
    "\<forall>j\<in>{0..<MAX_ROWS}. files s1 (slot_filename j) = Some (fprintf_employee (employees ! nat j))"
    by auto
  have n: "num_employees s1 = 0" and opens: "\<not> open_w_fails s1 path" for path
    using s1(3,4) by (simp_all add: boot_def)
  let ?fs = "(files s1)(slot_filename 0 \<mapsto> fprintf_employee ?r)"
  let ?s2 = "s1\<lparr>files := ?fs, trace := trace s1 @ write_events (open_w_fails s1) 0,
    num_employees := 1\<rparr>"
  have add: "add_new_employee ''Asha'' ''EMP011'' [] ''Engineer'' ''60000'' s1 =
      Some (New_Employee_Added ?r, ?s2)"
    using s1(2) n opens
    by (simp add: add_new_employee_free ins written_def MAX_ROWS_def)
  have "Employee_ID (slot_view zero_stack ?fs j) \<noteq> ''EMP011''" if j: "j \<in> {0..<MAX_ROWS}" for j
  proof (cases "j = 0")
    case True
    with r show ?thesis
      by (simp add: slot_view_same fscanf_fprintf_plain Employee_ID_zero)
  next
    case False
    with j have "slot_view zero_stack ?fs j = employees ! nat j"
      using s1(5) by (simp add: slot_view_other slot_view_seeded MAX_ROWS_def)
    moreover from j have "Employee_ID (employees ! nat j) \<noteq> ''EMP011''"
      using slot_cases [of j] by (auto simp: employees_ids)
    ultimately show ?thesis by simp
  qed
  then have "matching_slot zero_stack ?fs ''EMP011'' 0 = None"
    by (simp add: matching_slot_None)
  then have "map_option fst (get_employee_details_by_id ''EMP011'' zero_stack ?s2) = Some zero_employee"
    using s1(2) by (simp add: get_employee_details_by_id_def get_employee_loop_free)
  then obtain s3 where "get_employee_details_by_id ''EMP011'' zero_stack ?s2 = Some (zero_employee, s3)"
    by auto
  with s1(1) add show ?thesis
    by (simp add: insert_then_find_def ins)
qed

subsection \<open>Lookup by identifier\<close>

lemma fscanf_employee_any:
  "fscanf_employee content (e::EmployeeDetails) = fscanf_employee content zero_employee"
  by (cases e) (simp add: fscanf_employee_def zero_employee_def split: option.splits)

lemma slot_view_stored: "stored_record fs i = Some r \<Longrightarrow> slot_view stack fs i = r"
  using fscanf_employee_any [of _ "stack i"]
  by (auto simp: stored_record_def slot_view_def)

lemma holds_id_view: "holds_id fs i employee_id \<Longrightarrow> Employee_ID (slot_view stack fs i) = employee_id"
  using slot_view_stored [of fs i _ stack] by (auto simp: holds_id_def split: option.splits)

lemma holds_other_view:
  "holds_other fs i employee_id \<Longrightarrow> Employee_ID (slot_view stack fs i) \<noteq> employee_id"
  using slot_view_stored [of fs i _ stack] by (auto simp: holds_other_def split: option.splits)

text \<open>
  The scan in terms of what \<open>read_employee_details\<close> leaves in \<open>current_employee\<close> for
  each slot: the lookup returns the struct of the lowest slot for which it holds the key,
  after reading the slots up to that one, and the all-zero record after reading all
  \<open>MAX_ROWS\<close> slots when it holds the key for none.
\<close>

lemma get_employee_details_by_id_read_back:
  assumes "\<not> mutex_held s"
  shows "(\<forall>k. 0 \<le> k \<and> k < MAX_ROWS \<and> Employee_ID (slot_view stack (files s) k) = employee_id \<and>
             (\<forall>j\<in>{0..<k}. Employee_ID (slot_view stack (files s) j) \<noteq> employee_id) \<longrightarrow>
           get_employee_details_by_id employee_id stack s =
             Some (slot_view stack (files s) k,
                   s\<lparr>trace := trace s @ concat (map (read_events (files s)) [0..k])\<rparr>)) \<and>
         ((\<forall>j\<in>{0..<MAX_ROWS}. Employee_ID (slot_view stack (files s) j) \<noteq> employee_id) \<longrightarrow>
           get_employee_details_by_id employee_id stack s =
             Some (zero_employee,
                   s\<lparr>trace := trace s @ concat (map (read_events (files s)) [0..MAX_ROWS - 1])\<rparr>))"
proof (intro conjI allI impI)
  fix k
  assume "0 \<le> k \<and> k < MAX_ROWS \<and> Employee_ID (slot_view stack (files s) k) = employee_id \<and>
    (\<forall>j\<in>{0..<k}. Employee_ID (slot_view stack (files s) j) \<noteq> employee_id)"
  then have "matching_slot stack (files s) employee_id 0 = Some k"
    by (intro matching_slot_first) simp_all
  with assms show "get_employee_details_by_id employee_id stack s =
      Some (slot_view stack (files s) k,
            s\<lparr>trace := trace s @ concat (map (read_events (files s)) [0..k])\<rparr>)"
    by (simp add: get_employee_details_by_id_def get_employee_loop_free)
next
  assume "\<forall>j\<in>{0..<MAX_ROWS}. Employee_ID (slot_view stack (files s) j) \<noteq> employee_id"
  then have "matching_slot stack (files s) employee_id 0 = None"
    by (simp add: matching_slot_None)
  with assms show "get_employee_details_by_id employee_id stack s =
      Some (zero_employee,
            s\<lparr>trace := trace s @ concat (map (read_events (files s)) [0..MAX_ROWS - 1])\<rparr>)"
    by (simp add: get_employee_details_by_id_def get_employee_loop_free)
qed

text \<open>
  Where every slot that is read has a file, the lookup is the one by decoded identifier:
  it returns the decoded record of the lowest slot whose file holds the key, and the
  all-zero record when all \<open>MAX_ROWS\<close> slots have files and none holds the key.
\<close>

lemma get_employee_details_by_id_stored:
  assumes "\<not> mutex_held s"
  shows "(\<forall>k. 0 \<le> k \<and> k < MAX_ROWS \<and> holds_id (files s) k employee_id \<and>
             (\<forall>j\<in>{0..<k}. holds_other (files s) j employee_id) \<longrightarrow>
           map_option fst (get_employee_details_by_id employee_id stack s) =
             stored_record (files s) k) \<and>
         ((\<forall>j\<in>{0..<MAX_ROWS}. holds_other (files s) j employee_id) \<longrightarrow>
           map_option fst (get_employee_details_by_id employee_id stack s) = Some zero_employee)"
proof (intro conjI allI impI)
  fix k
  assume k: "0 \<le> k \<and> k < MAX_ROWS \<and> holds_id (files s) k employee_id \<and>
    (\<forall>j\<in>{0..<k}. holds_other (files s) j employee_id)"
  then obtain r where r: "stored_record (files s) k = Some r"
    by (auto simp: holds_id_def split: option.splits)
  from k have "matching_slot stack (files s) employee_id 0 = Some k"
    by (intro matching_slot_first) (simp_all add: holds_id_view holds_other_view)
  with assms r show "map_option fst (get_employee_details_by_id employee_id stack s) =
      stored_record (files s) k"
    by (simp add: get_employee_details_by_id_def get_employee_loop_free slot_view_stored)
next
  assume "\<forall>j\<in>{0..<MAX_ROWS}. holds_other (files s) j employee_id"
  then have "matching_slot stack (files s) employee_id 0 = None"
    by (simp add: matching_slot_None holds_other_view)
  with assms show "map_option fst (get_employee_details_by_id employee_id stack s) = Some zero_employee"
    by (simp add: get_employee_details_by_id_def get_employee_loop_free)
qed

text \<open>
  C6 where a slot has no file. On a fresh partition no slot holds any identifier, so the
  lookup of EMP001 should return the all-zero record after reading all \<open>MAX_ROWS\<close> slots.
  \<open>read_employee_details\<close> leaves \<open>current_employee\<close> untouched when slot 0 cannot be
  opened; with the record of JohnDoe still on the stack, the comparison succeeds and the
  lookup returns that record.
\<close>

theorem get_employee_details_by_id_stale_match:
  "map_option fst (get_employee_details_by_id ''EMP001'' (stale_stack john) boot) = Some john \<and>
   john \<noteq> zero_employee"
proof -
  have "files boot (slot_filename 0) = None" "\<not> mutex_held boot"
    by (simp_all add: boot_def)
  then have "slot_view (stale_stack john) (files boot) 0 = john"
    by (simp add: slot_view_def stale_stack_def)
  moreover have "Employee_ID john = ''EMP001''"
    by (simp add: john_def mk_employee_def)
  ultimately have "matching_slot (stale_stack john) (files boot) ''EMP001'' 0 = Some 0"
    by (intro matching_slot_first) (simp_all add: MAX_ROWS_def)
  with \<open>\<not> mutex_held boot\<close> \<open>slot_view (stale_stack john) (files boot) 0 = john\<close>
  have "map_option fst (get_employee_details_by_id ''EMP001'' (stale_stack john) boot) = Some john"
    by (simp add: get_employee_details_by_id_def get_employee_loop_free)
  moreover have "john \<noteq> zero_employee"
    by (simp add: john_def mk_employee_def zero_employee_def)
  ultimately show ?thesis by simp
qed

subsection \<open>Deletion\<close>

text \<open>
  The scan in terms of what \<open>read_employee_details\<close> leaves in \<open>current_employee\<close> for
  each slot.
\<close>

lemma delete_employee_by_id_read_back:
  assumes "\<not> mutex_held s"
  shows "(\<forall>k. 0 \<le> k \<and> k < MAX_ROWS \<and> Employee_ID (slot_view stack (files s) k) = employee_id \<and>
             (\<forall>j\<in>{0..<k}. Employee_ID (slot_view stack (files s) j) \<noteq> employee_id) \<longrightarrow>
           (\<exists>s'. delete_employee_by_id employee_id stack s = Some (Deleted_Successfully, s') \<and>
              num_employees s' = num_employees s \<and>
              files s' =
                (if open_w_fails s (slot_filename k) then files s
                 else (files s)(slot_filename k \<mapsto> fprintf_employee zero_employee)) \<and>
              (\<not> open_w_fails s (slot_filename k) \<longrightarrow>
                 map_option fst (read_employee_details k e s') = Some zero_employee \<and>
                 (employee_id \<noteq> [] \<and>
                  (\<forall>j\<in>{0..<MAX_ROWS} - {k}.
                     Employee_ID (slot_view stack' (files s) j) \<noteq> employee_id) \<longrightarrow>
                  map_option fst (delete_employee_by_id employee_id stack' s') = Some Not_Found)))) \<and>
         ((\<forall>j\<in>{0..<MAX_ROWS}. Employee_ID (slot_view stack (files s) j) \<noteq> employee_id) \<longrightarrow>
           delete_employee_by_id employee_id stack s =
             Some (Not_Found,
                   s\<lparr>trace := trace s @ concat (map (read_events (files s)) [0..MAX_ROWS - 1])\<rparr>))"
proof (intro conjI allI impI)
  fix k
  assume k: "0 \<le> k \<and> k < MAX_ROWS \<and> Employee_ID (slot_view stack (files s) k) = employee_id \<and>
    (\<forall>j\<in>{0..<k}. Employee_ID (slot_view stack (files s) j) \<noteq> employee_id)"
  let ?s' = "s\<lparr>files := written (open_w_fails s) (files s) k zero_employee,
      trace := trace s @ concat (map (read_events (files s)) [0..k])
        @ write_events (open_w_fails s) k\<rparr>"
  from k have "matching_slot stack (files s) employee_id 0 = Some k"
    by (intro matching_slot_first) simp_all
  with assms have del: "delete_employee_by_id employee_id stack s = Some (Deleted_Successfully, ?s')"
    by (simp add: delete_employee_by_id_def delete_employee_loop_free)
  have free': "\<not> mutex_held ?s'"
    using assms by simp
  have after: "map_option fst (read_employee_details k e ?s') = Some zero_employee \<and>
      (employee_id \<noteq> [] \<and>
        (\<forall>j\<in>{0..<MAX_ROWS} - {k}. Employee_ID (slot_view stack' (files s) j) \<noteq> employee_id) \<longrightarrow>
       map_option fst (delete_employee_by_id employee_id stack' ?s') = Some Not_Found)"
    if opened: "\<not> open_w_fails s (slot_filename k)"
  proof (intro conjI impI)
    let ?fs = "(files s)(slot_filename k \<mapsto> fprintf_employee zero_employee)"
    have fs: "files ?s' = ?fs"
      using opened by (simp add: written_def)
    show "map_option fst (read_employee_details k e ?s') = Some zero_employee"
      using free' opened
      by (simp add: read_employee_details_free written_def fscanf_zero_employee)
    assume other: "employee_id \<noteq> [] \<and>
      (\<forall>j\<in>{0..<MAX_ROWS} - {k}. Employee_ID (slot_view stack' (files s) j) \<noteq> employee_id)"
    have "Employee_ID (slot_view stack' ?fs j) \<noteq> employee_id" if "j \<in> {0..<MAX_ROWS}" for j
    proof (cases "j = k")
      case True
      have "Employee_ID (slot_view stack' ?fs k) = []"
        by (simp add: slot_view_same fscanf_zero_employee Employee_ID_zero)
      with True other show ?thesis
        by auto
    next
      case False
      with that k other show ?thesis
        by (simp add: slot_view_other)
    qed
    then have "matching_slot stack' ?fs employee_id 0 = None"
      by (simp add: matching_slot_None)
    with free' fs show "map_option fst (delete_employee_by_id employee_id stack' ?s') = Some Not_Found"
      by (simp add: delete_employee_by_id_def delete_employee_loop_free)
  qed
  show "\<exists>s'. delete_employee_by_id employee_id stack s = Some (Deleted_Successfully, s') \<and>
      num_employees s' = num_employees s \<and>
      files s' =
        (if open_w_fails s (slot_filename k) then files s
         else (files s)(slot_filename k \<mapsto> fprintf_employee zero_employee)) \<and>
      (\<not> open_w_fails s (slot_filename k) \<longrightarrow>
         map_option fst (read_employee_details k e s') = Some zero_employee \<and>
         (employee_id \<noteq> [] \<and>
          (\<forall>j\<in>{0..<MAX_ROWS} - {k}.
             Employee_ID (slot_view stack' (files s) j) \<noteq> employee_id) \<longrightarrow>
          map_option fst (delete_employee_by_id employee_id stack' s') = Some Not_Found))"
    using del after by (intro exI [of _ ?s']) (simp add: written_def)
next
  assume "\<forall>j\<in>{0..<MAX_ROWS}. Employee_ID (slot_view stack (files s) j) \<noteq> employee_id"
  then have "matching_slot stack (files s) employee_id 0 = None"
    by (simp add: matching_slot_None)
  with assms show "delete_employee_by_id employee_id stack s =
      Some (Not_Found,
            s\<lparr>trace := trace s @ concat (map (read_events (files s)) [0..MAX_ROWS - 1])\<rparr>)"
    by (simp add: delete_employee_by_id_def delete_employee_loop_free)
qed

lemma stored_record_seeded:
  assumes "0 \<le> j" "j < MAX_ROWS" "fs (slot_filename j) = Some (fprintf_employee (employees ! nat j))"
  shows "stored_record fs j = Some (employees ! nat j)"
  using assms employees_plain [of j] by (simp add: stored_record_def fscanf_fprintf_plain)

lemma holds_seeded:
  assumes "0 \<le> j" "j < MAX_ROWS" "fs (slot_filename j) = Some (fprintf_employee (employees ! nat j))"
  shows "holds_id fs j employee_id \<longleftrightarrow> Employee_ID (employees ! nat j) = employee_id"
    and "holds_other fs j employee_id \<longleftrightarrow> Employee_ID (employees ! nat j) \<noteq> employee_id"
  using assms stored_record_seeded [of j fs] by (simp_all add: holds_id_def holds_other_def)

text \<open>
  C7, as the code has it. Started with the mutex free, \<open>delete_employee_by_id\<close> reads the
  slots in ascending order. When slot \<open>k\<close> of \<open>[0, MAX_ROWS)\<close> has a file whose decoded
  identifier is the key and every slot below \<open>k\<close> has a file whose decoded identifier is
  not the key, it writes the all-zero record to slot \<open>k\<close> and reports success; the counter
  keeps its value, and when the file of slot \<open>k\<close> opens for writing a read of slot \<open>k\<close>
  then returns the all-zero record. When every one of the \<open>MAX_ROWS\<close> slots has a file and
  none of them decodes to the key, it reports that the key was not found, after reading all
  \<open>MAX_ROWS\<close> slots, with files and counter as they were. A second call for the key of a
  successful deletion reports not found provided that the key is not empty, the file of
  slot \<open>k\<close> opened for writing and every other slot has a file whose decoded identifier is
  not the key. The decoded identifier of a file that does not decode is the empty one of
  the cleared struct. Nothing is said about a scan that reads a slot without a file.
\<close>

theorem delete_employee_by_id_first_match:
  assumes "\<not> mutex_held s"
  shows "(\<forall>k. 0 \<le> k \<and> k < MAX_ROWS \<and> holds_id (files s) k employee_id \<and>
             (\<forall>j\<in>{0..<k}. holds_other (files s) j employee_id) \<longrightarrow>
           (\<exists>s'. delete_employee_by_id employee_id stack s = Some (Deleted_Successfully, s') \<and>
              num_employees s' = num_employees s \<and>
              files s' =
                (if open_w_fails s (slot_filename k) then files s
                 else (files s)(slot_filename k \<mapsto> fprintf_employee zero_employee)) \<and>
              (\<not> open_w_fails s (slot_filename k) \<longrightarrow>
                 map_option fst (read_employee_details k e s') = Some zero_employee \<and>
                 (employee_id \<noteq> [] \<and>
                  (\<forall>j\<in>{0..<MAX_ROWS} - {k}. holds_other (files s) j employee_id) \<longrightarrow>
                  map_option fst (delete_employee_by_id employee_id stack' s') = Some Not_Found)))) \<and>
         ((\<forall>j\<in>{0..<MAX_ROWS}. holds_other (files s) j employee_id) \<longrightarrow>
           delete_employee_by_id employee_id stack s =
             Some (Not_Found,
                   s\<lparr>trace := trace s @ concat (map (read_events (files s)) [0..MAX_ROWS - 1])\<rparr>))"
proof (intro conjI allI impI)
  fix k
  assume k: "0 \<le> k \<and> k < MAX_ROWS \<and> holds_id (files s) k employee_id \<and>
    (\<forall>j\<in>{0..<k}. holds_other (files s) j employee_id)"
  then have view: "0 \<le> k \<and> k < MAX_ROWS \<and>
      Employee_ID (slot_view stack (files s) k) = employee_id \<and>
      (\<forall>j\<in>{0..<k}. Employee_ID (slot_view stack (files s) j) \<noteq> employee_id)"
    by (simp add: holds_id_view holds_other_view)
  from delete_employee_by_id_read_back [OF assms, of stack employee_id e stack'] view
  obtain s' where s': "delete_employee_by_id employee_id stack s = Some (Deleted_Successfully, s')"
    "num_employees s' = num_employees s"
    "files s' =
       (if open_w_fails s (slot_filename k) then files s
        else (files s)(slot_filename k \<mapsto> fprintf_employee zero_employee))"
    "\<not> open_w_fails s (slot_filename k) \<longrightarrow>
       map_option fst (read_employee_details k e s') = Some zero_employee \<and>
       (employee_id \<noteq> [] \<and>
        (\<forall>j\<in>{0..<MAX_ROWS} - {k}.
           Employee_ID (slot_view stack' (files s) j) \<noteq> employee_id) \<longrightarrow>
        map_option fst (delete_employee_by_id employee_id stack' s') = Some Not_Found)"
    by blast
  have "map_option fst (delete_employee_by_id employee_id stack' s') = Some Not_Found"
    if "\<not> open_w_fails s (slot_filename k)" "employee_id \<noteq> []"
      "\<forall>j\<in>{0..<MAX_ROWS} - {k}. holds_other (files s) j employee_id"
  proof -
    from that(3) have "\<forall>j\<in>{0..<MAX_ROWS} - {k}.
        Employee_ID (slot_view stack' (files s) j) \<noteq> employee_id"
      by (simp add: holds_other_view)
    with s'(4) that(1,2) show ?thesis by blast
  qed
  with s' show "\<exists>s'. delete_employee_by_id employee_id stack s = Some (Deleted_Successfully, s') \<and>
      num_employees s' = num_employees s \<and>
      files s' =
        (if open_w_fails s (slot_filename k) then files s
         else (files s)(slot_filename k \<mapsto> fprintf_employee zero_employee)) \<and>
      (\<not> open_w_fails s (slot_filename k) \<longrightarrow>
         map_option fst (read_employee_details k e s') = Some zero_employee \<and>
         (employee_id \<noteq> [] \<and>
          (\<forall>j\<in>{0..<MAX_ROWS} - {k}. holds_other (files s) j employee_id) \<longrightarrow>
          map_option fst (delete_employee_by_id employee_id stack' s') = Some Not_Found))"
    by (intro exI [of _ s']) blast
next
  assume "\<forall>j\<in>{0..<MAX_ROWS}. holds_other (files s) j employee_id"
  then have "\<forall>j\<in>{0..<MAX_ROWS}. Employee_ID (slot_view stack (files s) j) \<noteq> employee_id"
    by (simp add: holds_other_view)
  with delete_employee_by_id_read_back [OF assms, of stack employee_id e stack']
  show "delete_employee_by_id employee_id stack s =
      Some (Not_Found,
            s\<lparr>trace := trace s @ concat (map (read_events (files s)) [0..MAX_ROWS - 1])\<rparr>)"
    by blast
qed

theorem delete_employee_by_id_first_match_witness:
  "\<exists>s s'. seed_loop 0 boot = Some s \<and>
     delete_employee_by_id ''EMP006'' zero_stack s = Some (Deleted_Successfully, s') \<and>
     num_employees s' = 0 \<and>
     files s' = (files s)(slot_filename 5 \<mapsto> fprintf_employee zero_employee) \<and>
     map_option fst (read_employee_details 5 john s') = Some zero_employee \<and>
     map_option fst (delete_employee_by_id ''EMP006'' zero_stack s') = Some Not_Found \<and>
     map_option fst (delete_employee_by_id ''EMP777'' zero_stack s) = Some Not_Found"
proof -
  have "\<not> mutex_held boot" "\<forall>j\<in>{0..<MAX_ROWS}. \<not> open_w_fails boot (slot_filename j)"
    by (simp_all add: boot_def)
  from seed_loop_free [OF this(1) order_refl this(2)]
  obtain s where s: "seed_loop 0 boot = Some s" "\<not> mutex_held s"
    "num_employees s = num_employees boot" "open_w_fails s = open_w_fails boot"
    "\<forall>j\<in>{0..<MAX_ROWS}. files s (slot_filename j) = Some (fprintf_employee (employees ! nat j))"
    by auto
  have n: "num_employees s = 0" and opens: "\<not> open_w_fails s path" for path
    using s(3,4) by (simp_all add: boot_def)
  have other: "holds_other (files s) j key \<longleftrightarrow> Employee_ID (employees ! nat j) \<noteq> key"
    and same: "holds_id (files s) j key \<longleftrightarrow> Employee_ID (employees ! nat j) = key"
    if "0 \<le> j" "j < MAX_ROWS" for j key
    using that s(5) by (simp_all add: holds_seeded)
  have ids: "j = 5 \<or> Employee_ID (employees ! nat j) \<noteq> ''EMP006''"
    "Employee_ID (employees ! nat j) \<noteq> ''EMP777''" if "0 \<le> j" "j < MAX_ROWS" for j
    using slot_cases [OF that] by (auto simp: employees_ids [OF that])
  have hit: "0 \<le> (5::int) \<and> 5 < MAX_ROWS \<and> holds_id (files s) 5 ''EMP006'' \<and>
      (\<forall>j\<in>{0..<5}. holds_other (files s) j ''EMP006'')"
  proof (intro conjI ballI)
    show "holds_id (files s) 5 ''EMP006''"
      using employees_ids [of 5] by (simp add: same MAX_ROWS_def)
    fix j :: int
    assume "j \<in> {0..<5}"
    then have "0 \<le> j" "j < MAX_ROWS" "j \<noteq> 5"
      by (simp_all add: MAX_ROWS_def)
    with ids(1) [of j] show "holds_other (files s) j ''EMP006''"
      by (simp add: other)
  qed (simp_all add: MAX_ROWS_def)
  have rest: "''EMP006'' \<noteq> [] \<and> (\<forall>j\<in>{0..<MAX_ROWS} - {5}. holds_other (files s) j ''EMP006'')"
  proof (intro conjI ballI)
    fix j :: int
    assume "j \<in> {0..<MAX_ROWS} - {5}"
    then have "0 \<le> j" "j < MAX_ROWS" "j \<noteq> 5"
      by simp_all
    with ids(1) [of j] show "holds_other (files s) j ''EMP006''"
      by (simp add: other)
  qed simp
  have miss: "\<forall>j\<in>{0..<MAX_ROWS}. holds_other (files s) j ''EMP777''"
    using ids(2) by (simp add: other)
  note inst = delete_employee_by_id_first_match [OF s(2), where stack = zero_stack and e = john
      and stack' = zero_stack]
  from inst [where employee_id = "''EMP006''"] hit
  obtain s' where s': "delete_employee_by_id ''EMP006'' zero_stack s = Some (Deleted_Successfully, s')"
    "num_employees s' = num_employees s"
    "files s' =
       (if open_w_fails s (slot_filename 5) then files s
        else (files s)(slot_filename 5 \<mapsto> fprintf_employee zero_employee))"
    "\<not> open_w_fails s (slot_filename 5) \<longrightarrow>
       map_option fst (read_employee_details 5 john s') = Some zero_employee \<and>
       (''EMP006'' \<noteq> [] \<and>
        (\<forall>j\<in>{0..<MAX_ROWS} - {5}. holds_other (files s) j ''EMP006'') \<longrightarrow>
        map_option fst (delete_employee_by_id ''EMP006'' zero_stack s') = Some Not_Found)"
    by blast
  from s'(4) opens rest
  have after: "map_option fst (read_employee_details 5 john s') = Some zero_employee"
    "map_option fst (delete_employee_by_id ''EMP006'' zero_stack s') = Some Not_Found"
    by blast+
  from inst [where employee_id = "''EMP777''"] miss
  have "map_option fst (delete_employee_by_id ''EMP777'' zero_stack s) = Some Not_Found"
    by simp
  with s(1) s'(1,2,3) n opens after show ?thesis
    by (intro exI [of _ s] exI [of _ s']) simp
qed

text \<open>
  A second deletion can succeed as well. In the small store slot 2 holds the all-zero
  record of a deleted employee; deleting the key \<open>""\<close> succeeds, and deleting it a second
  time succeeds again.
\<close>

theorem delete_employee_by_id_counterexample:
  "delete_twice [] zero_stack zero_stack demo_store =
     Some (Deleted_Successfully, Deleted_Successfully)"
proof -
  let ?fs = "(files demo_store)(slot_filename 2 \<mapsto> fprintf_employee zero_employee)"
  let ?s1 = "demo_store\<lparr>files := ?fs,
      trace := trace demo_store @ concat (map (read_events (files demo_store)) [0..2])
        @ write_events (open_w_fails demo_store) 2\<rparr>"
  have "matching_slot zero_stack (files demo_store) [] 0 = Some 2"
    by (intro matching_slot_first) (simp_all add: demo_store_ids MAX_ROWS_def)
  then have first: "delete_employee_by_id [] zero_stack demo_store = Some (Deleted_Successfully, ?s1)"
    using demo_store_free
    by (simp add: delete_employee_by_id_def delete_employee_loop_free written_def demo_store_opens)
  have "Employee_ID (slot_view zero_stack ?fs 2) = []"
    by (simp add: slot_view_same fscanf_zero_employee Employee_ID_zero)
  moreover have "\<forall>j\<in>{0..<2}. Employee_ID (slot_view zero_stack ?fs j) \<noteq> []"
    by (simp add: slot_view_other demo_store_ids MAX_ROWS_def)
  ultimately have "matching_slot zero_stack ?fs [] 0 = Some 2"
    by (intro matching_slot_first) (simp_all add: MAX_ROWS_def)
  moreover have "\<not> mutex_held ?s1"
    using demo_store_free by simp
  ultimately have "map_option fst (delete_employee_by_id [] zero_stack ?s1) = Some Deleted_Successfully"
    by (simp add: delete_employee_by_id_def delete_employee_loop_free)
  then obtain s2 where "delete_employee_by_id [] zero_stack ?s1 = Some (Deleted_Successfully, s2)"
    by auto
  with first show ?thesis
    by (simp add: delete_twice_def)
qed

subsection \<open>The counter\<close>

lemma write_employee_details_SomeD:
  "write_employee_details i r s = Some s' \<Longrightarrow> \<not> mutex_held s"
  by (auto simp: write_employee_details_def lock_spiffs_def split: if_splits)

lemma read_employee_details_SomeD:
  "read_employee_details i e s = Some x \<Longrightarrow> \<not> mutex_held s"
  by (auto simp: read_employee_details_def lock_spiffs_def split: if_splits)

lemma get_employee_details_by_id_SomeD:
  "get_employee_details_by_id employee_id stack s = Some x \<Longrightarrow> \<not> mutex_held s"
  unfolding get_employee_details_by_id_def
  by (subst (asm) get_employee_loop.simps)
    (auto simp: MAX_ROWS_def dest: read_employee_details_SomeD split: option.splits)

lemma delete_employee_by_id_SomeD:
  "delete_employee_by_id employee_id stack s = Some x \<Longrightarrow> \<not> mutex_held s"
  unfolding delete_employee_by_id_def
  by (subst (asm) delete_employee_loop.simps)
    (auto simp: MAX_ROWS_def dest: read_employee_details_SomeD split: option.splits)

lemma perform_num_employees:
  assumes "perform op s = Some s'"
  shows "num_employees s' =
    (if is_add op \<and> num_employees s < MAX_ROWS then num_employees s + 1 else num_employees s)"
proof (cases op)
  case (Add name emp_id age position salary)
  show ?thesis
  proof (cases "num_employees s < MAX_ROWS")
    case True
    with assms Add have "\<not> mutex_held s"
      by (auto simp: add_new_employee_def Let_def dest: write_employee_details_SomeD
          split: option.splits)
    with assms Add True show ?thesis
      by (auto simp: add_new_employee_free)
  next
    case False
    with assms Add show ?thesis
      by (auto simp: add_new_employee_def)
  qed
next
  case (Get employee_id stack)
  with assms have "\<not> mutex_held s"
    by (auto dest: get_employee_details_by_id_SomeD)
  with assms Get show ?thesis
    by (auto simp: get_employee_details_by_id_def get_employee_loop_free split: option.splits)
next
  case (Delete employee_id stack)
  with assms have "\<not> mutex_held s"
    by (auto dest: delete_employee_by_id_SomeD)
  with assms Delete show ?thesis
    by (auto simp: delete_employee_by_id_def delete_employee_loop_free split: option.splits)
next
  case (Write i r)
  with assms have "\<not> mutex_held s"
    by (auto dest: write_employee_details_SomeD)
  with assms Write show ?thesis
    by (auto simp: write_employee_details_free)
next
  case (Read i e)
  with assms have "\<not> mutex_held s"
    by (auto dest: read_employee_details_SomeD)
  with assms Read show ?thesis
    by (auto simp: read_employee_details_free)
qed

lemma perform_free:
  assumes "\<not> mutex_held s"
  shows "\<exists>s'. perform op s = Some s' \<and> \<not> mutex_held s'"
proof (cases op)
  case (Add name emp_id age position salary)
  show ?thesis
  proof (cases "num_employees s < MAX_ROWS")
    case True
    with assms Add show ?thesis
      by (simp add: add_new_employee_free)
  next
    case False
    with assms Add show ?thesis
      by (simp add: add_new_employee_def)
  qed
next
  case (Get employee_id stack)
  with assms show ?thesis
    by (simp add: get_employee_details_by_id_def get_employee_loop_free split: option.split)
next
  case (Delete employee_id stack)
  with assms show ?thesis
    by (simp add: delete_employee_by_id_def delete_employee_loop_free split: option.split)
next
  case (Write i r)
  with assms show ?thesis
    by (simp add: write_employee_details_free)
next
  case (Read i e)
  with assms show ?thesis
    by (simp add: read_employee_details_free)
qed

lemma run_free: "\<not> mutex_held s \<Longrightarrow> \<exists>s'. run ops s = Some s' \<and> \<not> mutex_held s'"
proof (induction ops arbitrary: s)
  case Nil
  then show ?case by simp
next
  case (Cons op ops)
  from perform_free [OF Cons.prems, of op] obtain s1 where "perform op s = Some s1" "\<not> mutex_held s1"
    by blast
  with Cons.IH [of s1] show ?case by simp
qed

lemma run_num_employees:
  "run ops s = Some s' \<Longrightarrow> 0 \<le> num_employees s \<Longrightarrow> num_employees s \<le> MAX_ROWS \<Longrightarrow>
   num_employees s \<le> num_employees s' \<and> num_employees s' \<le> MAX_ROWS"
proof (induction ops arbitrary: s)
  case Nil
  then show ?case by simp
next
  case (Cons op ops)
  from Cons.prems(1) obtain s1 where s1: "perform op s = Some s1" "run ops s1 = Some s'"
    by (auto simp: bind_eq_Some_conv)
  from perform_num_employees [OF s1(1)] Cons.prems(2,3)
  have "num_employees s \<le> num_employees s1" "0 \<le> num_employees s1" "num_employees s1 \<le> MAX_ROWS"
    by (auto split: if_splits)
  with Cons.IH [OF s1(2)] show ?case by simp
qed

text \<open>
  C8. In every state that a run of operations reaches from a state with the counter at its
  initial value 0, the counter lies in \<open>[0, MAX_ROWS]\<close>, and any operation performed there
  leaves it at least as large; an operation that changes it is an insertion at a counter
  below \<open>MAX_ROWS\<close> and adds exactly 1. Started with the mutex free, every run returns.
\<close>

theorem num_employees_invariant:
  assumes "num_employees s0 = 0"
  shows "(\<forall>s. run ops s0 = Some s \<longrightarrow>
            0 \<le> num_employees s \<and> num_employees s \<le> MAX_ROWS \<and>
            (\<forall>op s'. perform op s = Some s' \<longrightarrow>
               num_employees s \<le> num_employees s' \<and> num_employees s' \<le> MAX_ROWS \<and>
               (num_employees s' \<noteq> num_employees s \<longrightarrow>
                  is_add op \<and> num_employees s < MAX_ROWS \<and>
                  num_employees s' = num_employees s + 1))) \<and>
         (\<not> mutex_held s0 \<longrightarrow> (\<exists>s. run ops s0 = Some s))"
proof (intro conjI allI impI)
  fix s
  assume run: "run ops s0 = Some s"
  from run_num_employees [OF run] assms
  show range: "0 \<le> num_employees s" "num_employees s \<le> MAX_ROWS"
    by (simp_all add: MAX_ROWS_def)
  fix op s'
  assume step: "perform op s = Some s'"
  from perform_num_employees [OF step] range
  show "num_employees s \<le> num_employees s'" "num_employees s' \<le> MAX_ROWS"
    by (auto split: if_splits)
  assume "num_employees s' \<noteq> num_employees s"
  with perform_num_employees [OF step]
  show "is_add op" "num_employees s < MAX_ROWS" "num_employees s' = num_employees s + 1"
    by (auto split: if_splits)
next
  assume "\<not> mutex_held s0"
  from run_free [OF this] show "\<exists>s. run ops s0 = Some s"
    by blast
qed

theorem num_employees_invariant_witness:
  "\<exists>s s'. run [Add ''Asha'' ''EMP011'' ''31'' ''Engineer'' ''60000'', Delete ''EMP011'' zero_stack] boot
            = Some s \<and>
          num_employees s = 1 \<and>
          perform (Add ''Ravi'' ''EMP003'' ''28'' ''SeniorExecutive'' ''40000'') s = Some s' \<and>
          num_employees s' = 2"
proof -
  let ?ops = "[Add ''Asha'' ''EMP011'' ''31'' ''Engineer'' ''60000'', Delete ''EMP011'' zero_stack]"
  let ?op = "Add ''Ravi'' ''EMP003'' ''28'' ''SeniorExecutive'' ''40000''"
  have zero: "num_employees boot = 0" and free: "\<not> mutex_held boot"
    by (simp_all add: boot_def)
  note inv = num_employees_invariant [OF zero, of ?ops]
  from inv free obtain s where s: "run ?ops boot = Some s"
    by blast
  from run_free [OF free, of ?ops] s have free_s: "\<not> mutex_held s"
    by simp
  from s obtain s1 where s1: "perform (Add ''Asha'' ''EMP011'' ''31'' ''Engineer'' ''60000'') boot = Some s1"
    "perform (Delete ''EMP011'' zero_stack) s1 = Some s"
    by (auto simp: bind_eq_Some_conv)
  from perform_num_employees [OF s1(1)] have "num_employees s1 = 1"
    by (simp add: boot_def MAX_ROWS_def)
  with perform_num_employees [OF s1(2)] have one: "num_employees s = 1"
    by simp
  from perform_free [OF free_s, of ?op] obtain s' where s': "perform ?op s = Some s'"
    by blast
  from perform_num_employees [OF s'] one have "num_employees s' = 2"
    by (simp add: MAX_ROWS_def)
  with s one s' show ?thesis
    by blast
qed

subsection \<open>Locking\<close>

lemma lock_spiffs_held: "mutex_held s \<Longrightarrow> lock_spiffs s = None"
  by (simp add: lock_spiffs_def)

lemma lock_spiffs_free:
  "\<not> mutex_held s \<Longrightarrow>
   lock_spiffs s = Some (s\<lparr>mutex_held := True, trace := trace s @ [(Take, True)]\<rparr>)"
  by (simp add: lock_spiffs_def emit_def)

text \<open>
  C9. While the mutex is held by someone else, \<open>write_employee_details\<close> and
  \<open>read_employee_details\<close> wait in \<open>lock_spiffs\<close> and do not return. Started with the mutex
  free, both return, and each adds to the trace exactly one \<open>Take\<close>, after which the mutex
  is held, then its file calls, all made with the mutex held, then exactly one \<open>Give\<close>,
  after which the mutex is free: on the path where the file cannot be opened the file calls
  are the one failed \<open>fopen\<close>, otherwise \<open>fopen\<close> and \<open>fclose\<close>. The mutex is free in the
  state returned.
\<close>

theorem slot_operations_take_and_give_once:
  "(mutex_held s \<longrightarrow>
      write_employee_details i r s = None \<and> read_employee_details i e s = None) \<and>
   (\<not> mutex_held s \<longrightarrow>
      (\<exists>s'. write_employee_details i r s = Some s' \<and> \<not> mutex_held s' \<and>
         trace s' = trace s @ [(Take, True)] @
           (if open_w_fails s (slot_filename i) then [(Fopen_failed (slot_filename i), True)]
            else [(Fopen (slot_filename i), True), (Fclose (slot_filename i), True)]) @
           [(Give, False)]) \<and>
      (\<exists>e' s'. read_employee_details i e s = Some (e', s') \<and> \<not> mutex_held s' \<and>
         trace s' = trace s @ [(Take, True)] @
           (if files s (slot_filename i) = None then [(Fopen_failed (slot_filename i), True)]
            else [(Fopen (slot_filename i), True), (Fclose (slot_filename i), True)]) @
           [(Give, False)]))"
proof (intro conjI impI)
  assume "mutex_held s"
  then show "write_employee_details i r s = None" "read_employee_details i e s = None"
    by (simp_all add: write_employee_details_def read_employee_details_def lock_spiffs_held)
next
  assume free: "\<not> mutex_held s"
  let ?s1 = "s\<lparr>mutex_held := True, trace := trace s @ [(Take, True)]\<rparr>"
  show "\<exists>s'. write_employee_details i r s = Some s' \<and> \<not> mutex_held s' \<and>
      trace s' = trace s @ [(Take, True)] @
        (if open_w_fails s (slot_filename i) then [(Fopen_failed (slot_filename i), True)]
         else [(Fopen (slot_filename i), True), (Fclose (slot_filename i), True)]) @
        [(Give, False)]"
    by (simp add: write_employee_details_def lock_spiffs_free [OF free] unlock_spiffs_def
        emit_def Let_def)
  show "\<exists>e' s'. read_employee_details i e s = Some (e', s') \<and> \<not> mutex_held s' \<and>
      trace s' = trace s @ [(Take, True)] @
        (if files s (slot_filename i) = None then [(Fopen_failed (slot_filename i), True)]
         else [(Fopen (slot_filename i), True), (Fclose (slot_filename i), True)]) @
        [(Give, False)]"
    by (cases "files s (slot_filename i)")
      (simp_all add: read_employee_details_def lock_spiffs_free [OF free] unlock_spiffs_def
        emit_def Let_def)
qed

theorem slot_operations_take_and_give_once_witness:
  "write_employee_details 0 zero_employee (boot\<lparr>mutex_held := True\<rparr>) = None \<and>
   read_employee_details 0 zero_employee (boot\<lparr>mutex_held := True\<rparr>) = None \<and>
   (\<exists>s'. write_employee_details 0 zero_employee boot = Some s' \<and> \<not> mutex_held s' \<and>
      trace s' = [(Take, True), (Fopen (slot_filename 0), True), (Fclose (slot_filename 0), True),
        (Give, False)]) \<and>
   (\<exists>e' s'. read_employee_details 0 zero_employee boot = Some (e', s') \<and> \<not> mutex_held s' \<and>
      trace s' = [(Take, True), (Fopen_failed (slot_filename 0), True), (Give, False)])"
  using slot_operations_take_and_give_once [of boot 0 zero_employee zero_employee]
    slot_operations_take_and_give_once [of "boot\<lparr>mutex_held := True\<rparr>" 0 zero_employee zero_employee]
  by (simp add: boot_def)

subsection \<open>The empty key\<close>

text \<open>
  C10 where a slot has no file. In the store with slot 0 missing and slot 1 blank, slot 1
  reads back all-zero, so the lookup of \<open>""\<close> should return the all-zero record as a
  match. \<open>read_employee_details\<close> leaves \<open>current_employee\<close> untouched when slot 0 cannot
  be opened; with a record on the stack whose identifier starts with a zero byte, the
  comparison with \<open>""\<close> succeeds at slot 0, the lookup returns that record, which is not
  all-zero, and the deletion of \<open>""\<close> creates a blank file for slot 0 instead of zeroing
  slot 1 again.
\<close>

theorem empty_key_stale_match:
  "slot_view (stale_stack john_without_id) (files gap_store) 1 = zero_employee \<and>
   map_option fst (get_employee_details_by_id [] (stale_stack john_without_id) gap_store)
     = Some john_without_id \<and>
   john_without_id \<noteq> zero_employee \<and>
   (\<exists>s'. delete_employee_by_id [] (stale_stack john_without_id) gap_store
            = Some (Deleted_Successfully, s') \<and>
          files s' = (files gap_store)(slot_filename 0 \<mapsto> fprintf_employee zero_employee))"
proof -
  have free: "\<not> mutex_held gap_store" and opens: "\<not> open_w_fails gap_store path" for path
    by (simp_all add: gap_store_def boot_def)
  have distinct: "slot_filename 0 \<noteq> slot_filename 1"
    by (simp add: slot_filename_inj MAX_ROWS_def)
  have view0: "slot_view (stale_stack john_without_id) (files gap_store) 0 = john_without_id"
    using distinct by (simp add: slot_view_def gap_store_def boot_def stale_stack_def)
  have view1: "slot_view (stale_stack john_without_id) (files gap_store) 1 = zero_employee"
    by (simp add: slot_view_def gap_store_def boot_def fscanf_zero_employee)
  have "Employee_ID john_without_id = []"
    by (simp add: john_without_id_def mk_employee_def)
  with view0 have hit: "matching_slot (stale_stack john_without_id) (files gap_store) [] 0 = Some 0"
    by (intro matching_slot_first) (simp_all add: MAX_ROWS_def)
  from hit free view0
  have get: "map_option fst (get_employee_details_by_id [] (stale_stack john_without_id) gap_store)
      = Some john_without_id"
    by (simp add: get_employee_details_by_id_def get_employee_loop_free)
  have differ: "john_without_id \<noteq> zero_employee"
    by (simp add: john_without_id_def mk_employee_def zero_employee_def)
  from hit free opens
  have del: "\<exists>s'. delete_employee_by_id [] (stale_stack john_without_id) gap_store
            = Some (Deleted_Successfully, s') \<and>
          files s' = (files gap_store)(slot_filename 0 \<mapsto> fprintf_employee zero_employee)"
    by (simp add: delete_employee_by_id_def delete_employee_loop_free written_def)
  from view1 get differ del show ?thesis
    by blast
qed

end
